theory Spec2Isabelle
  imports Complex_Main
begin

section \<open>CEM-RL: the evaluator and the training loop of \<open>es_grad_v2.2.py\<close>\<close>

text \<open>
  The script trains a population of policies with the cross-entropy method and a few
  gradient actors with DDPG, all feeding one replay buffer. Numbers that are floats in
  the script are real numbers here, with one extra value for the \<open>nan\<close> that
  \<open>np.mean\<close> returns on an empty list; observations, actions and parameter vectors
  (numpy arrays) are lists of reals. Python's integers are \<open>int\<close>; the step counter of
  \<open>evaluate\<close>, which only counts up from zero, is a \<open>nat\<close>.

  Everything outside the script is a collaborator and stays a parameter: the gym
  environment and every source of randomness act on a world state \<open>'w\<close>, the replay
  buffer is a value of type \<open>'m\<close>, the networks are values of type \<open>'ac\<close> and \<open>'cr\<close>,
  the search engine is a value of type \<open>'es\<close>. The environment and the networks are
  taken to answer every call; \<open>memory.sample\<close> and \<open>es.tell\<close> may raise.
\<close>

subsection \<open>Values and errors\<close>

datatype error = IndexError | NameError | ValueError | AssertionError

datatype npfloat = Num real | NaN

fun the_num :: "npfloat \<Rightarrow> real" where
  "the_num (Num x) = x"
| "the_num NaN = 0"

text \<open>\<open>np.mean\<close>: \<open>nan\<close> on an empty list (with a warning, no exception) and on a list
  that holds a \<open>nan\<close>.\<close>

definition np_mean :: "npfloat list \<Rightarrow> npfloat" where
  "np_mean xs =
     (if xs = [] \<or> NaN \<in> set xs then NaN
      else Num (sum_list (map the_num xs) / real (length xs)))"

text \<open>\<open>np.max\<close>: raises \<open>ValueError\<close> on an empty array, propagates \<open>nan\<close>.\<close>

definition np_max :: "npfloat list \<Rightarrow> error + npfloat" where
  "np_max xs =
     (if xs = [] then Inl ValueError
      else if NaN \<in> set xs then Inr NaN
      else Inr (Num (Max (set (map the_num xs)))))"

text \<open>\<open>np.clip(a, a_min, a_max)\<close> is \<open>minimum(a_max, maximum(a, a_min))\<close>, elementwise.\<close>

definition np_clip :: "real list \<Rightarrow> real \<Rightarrow> real \<Rightarrow> real list" where
  "np_clip a a_min a_max = map (\<lambda>x. min a_max (max x a_min)) a"

text \<open>\<open>int(x)\<close> on a float truncates towards zero.\<close>

definition py_int :: "real \<Rightarrow> int" where
  "py_int x = (if 0 \<le> x then \<lfloor>x\<rfloor> else \<lceil>x\<rceil>)"

text \<open>\<open>float(done)\<close> on a bool.\<close>

definition py_float :: "bool \<Rightarrow> real" where
  "py_float b = (if b then 1 else 0)"

subsection \<open>The environment\<close>

text \<open>
  The gym environment: \<open>reset()\<close>, \<open>step(action)\<close> returning
  \<open>(next_state, reward, done, info)\<close> (\<open>info\<close> is dropped by the script), \<open>render()\<close>,
  the attribute \<open>_max_episode_steps\<close>, and the action space with \<open>sample()\<close>, \<open>low\<close>
  and \<open>high\<close>.
\<close>

record 'w env =
  env_reset :: "'w \<Rightarrow> real list \<times> 'w"
  env_step :: "real list \<Rightarrow> 'w \<Rightarrow> (real list \<times> real \<times> bool) \<times> 'w"
  env_render :: "'w \<Rightarrow> 'w"
  env_max_episode_steps :: nat
  action_space_sample :: "'w \<Rightarrow> real list \<times> 'w"
  action_space_low :: "real list"
  action_space_high :: "real list"

text \<open>A transition as \<open>memory.add\<close> receives it:
  \<open>(obs, n_obs, action, reward, done_bool)\<close>.\<close>

type_synonym transition = "real list \<times> real list \<times> real list \<times> real \<times> real"

subsection \<open>\<open>evaluate\<close>\<close>

text \<open>
  The inner function \<open>policy\<close> of \<open>evaluate\<close>. \<open>max_action\<close> is the script's global;
  \<open>noise.sample()\<close> draws from the world. The sum \<open>action += noise.sample()\<close> is
  elementwise on two vectors of the action dimension.
\<close>

definition policy ::
  "int \<Rightarrow> (real list \<Rightarrow> real list) \<Rightarrow> 'w env \<Rightarrow> bool \<Rightarrow> ('w \<Rightarrow> real list \<times> 'w) option
     \<Rightarrow> real list \<Rightarrow> 'w \<Rightarrow> real list \<times> 'w" where
  "policy max_action actor env random noise state w =
     (if \<not> random then
        (let action = actor state;
             aw = (case noise of
                     None \<Rightarrow> (action, w)
                   | Some sample \<Rightarrow> (map2 (+) action (fst (sample w)), snd (sample w)))
         in (np_clip (fst aw) (- real_of_int max_action) (real_of_int max_action), snd aw))
      else action_space_sample env w)"

text \<open>The variables of the \<open>while not done\<close> loop.\<close>

record ('w, 'm) loop_vars =
  lv_world :: 'w
  lv_obs :: "real list"
  lv_score :: real
  lv_steps :: nat
  lv_memory :: "'m option"
  lv_done :: bool

text \<open>One pass through the body of the \<open>while\<close> loop (lines 113 to 132).\<close>

definition while_body ::
  "(transition \<Rightarrow> 'm \<Rightarrow> 'm) \<Rightarrow> (real list \<Rightarrow> 'w \<Rightarrow> real list \<times> 'w) \<Rightarrow> 'w env \<Rightarrow> bool
     \<Rightarrow> ('w, 'm) loop_vars \<Rightarrow> ('w, 'm) loop_vars" where
  "while_body add pol env render v =
     (let obs = lv_obs v;
          (action, w1) = pol obs (lv_world v);
          ((n_obs, reward, done), w2) = env_step env action w1;
          done_bool = (if lv_steps v + 1 = env_max_episode_steps env then 0 else py_float done);
          score = lv_score v + reward;
          steps = lv_steps v + 1;
          memory = (case lv_memory v of
                      None \<Rightarrow> None
                    | Some m \<Rightarrow> Some (add (obs, n_obs, action, reward, done_bool) m));
          w3 = (if render then env_render env w2 else w2);
          w4 = (if done then snd (env_reset env w3) else w3)
      in \<lparr>lv_world = w4, lv_obs = n_obs, lv_score = score, lv_steps = steps,
          lv_memory = memory, lv_done = done\<rparr>)"

text \<open>The \<open>while not done\<close> loop; \<open>None\<close> when the environment never reports \<open>done\<close>.\<close>

partial_function (option) while_loop ::
  "(transition \<Rightarrow> 'm \<Rightarrow> 'm) \<Rightarrow> (real list \<Rightarrow> 'w \<Rightarrow> real list \<times> 'w) \<Rightarrow> 'w env \<Rightarrow> bool
     \<Rightarrow> ('w, 'm) loop_vars \<Rightarrow> ('w, 'm) loop_vars option" where
  "while_loop add pol env render v =
     (if \<not> lv_done v then while_loop add pol env render (while_body add pol env render v)
      else Some v)"

text \<open>The variables of the \<open>for _ in range(n_episodes)\<close> loop.\<close>

record ('w, 'm) eval_vars =
  ev_scores :: "real list"
  ev_steps :: nat
  ev_world :: 'w
  ev_memory :: "'m option"

text \<open>One episode: lines 107 to 134.\<close>

definition episode ::
  "(transition \<Rightarrow> 'm \<Rightarrow> 'm) \<Rightarrow> (real list \<Rightarrow> 'w \<Rightarrow> real list \<times> 'w) \<Rightarrow> 'w env \<Rightarrow> bool
     \<Rightarrow> ('w, 'm) eval_vars \<Rightarrow> ('w, 'm) eval_vars option" where
  "episode add pol env render e =
     (let (obs, w1) = env_reset env (ev_world e);
          v0 = \<lparr>lv_world = w1, lv_obs = obs, lv_score = 0, lv_steps = ev_steps e,
                lv_memory = ev_memory e, lv_done = False\<rparr>
      in case while_loop add pol env render v0 of
           None \<Rightarrow> None
         | Some v \<Rightarrow> Some \<lparr>ev_scores = ev_scores e @ [lv_score v], ev_steps = lv_steps v,
                          ev_world = lv_world v, ev_memory = lv_memory v\<rparr>)"

fun episodes ::
  "(transition \<Rightarrow> 'm \<Rightarrow> 'm) \<Rightarrow> (real list \<Rightarrow> 'w \<Rightarrow> real list \<times> 'w) \<Rightarrow> 'w env \<Rightarrow> bool
     \<Rightarrow> nat \<Rightarrow> ('w, 'm) eval_vars \<Rightarrow> ('w, 'm) eval_vars option" where
  "episodes add pol env render 0 e = Some e"
| "episodes add pol env render (Suc n) e =
     (case episode add pol env render e of
        None \<Rightarrow> None
      | Some e' \<Rightarrow> episodes add pol env render n e')"

text \<open>
  \<open>evaluate(actor, env, memory, n_episodes, random, noise, render)\<close> returns
  \<open>(np.mean(scores), steps)\<close>; the model returns with them the world and the buffer as
  the call leaves them. \<open>range(n)\<close> is empty for \<open>n \<le> 0\<close>.
\<close>

definition evaluate ::
  "(transition \<Rightarrow> 'm \<Rightarrow> 'm) \<Rightarrow> int \<Rightarrow> (real list \<Rightarrow> real list) \<Rightarrow> 'w env \<Rightarrow> 'm option \<Rightarrow> int
     \<Rightarrow> bool \<Rightarrow> ('w \<Rightarrow> real list \<times> 'w) option \<Rightarrow> bool \<Rightarrow> 'w
     \<Rightarrow> ((npfloat \<times> nat) \<times> 'w \<times> 'm option) option" where
  "evaluate add max_action actor env memory n_episodes random noise render w =
     (case episodes add (policy max_action actor env random noise) env render (nat n_episodes)
             \<lparr>ev_scores = [], ev_steps = 0, ev_world = w, ev_memory = memory\<rparr> of
        None \<Rightarrow> None
      | Some e \<Rightarrow> Some ((np_mean (map Num (ev_scores e)), ev_steps e), ev_world e, ev_memory e))"

declare while_loop.simps [code]

text \<open>Line 264: \<open>max_action = int(env.action_space.high[0])\<close>.\<close>

definition max_action_of :: "'w env \<Rightarrow> error + int" where
  "max_action_of env =
     (case action_space_high env of [] \<Rightarrow> Inl IndexError | h # _ \<Rightarrow> Inr (py_int h))"

subsection \<open>What the specification says of \<open>evaluate\<close>\<close>

text \<open>
  The specification describes \<open>evaluate\<close> by its rollouts. A rollout is the sequence of
  environment steps of one episode, each with the observation it started from, the next
  observation, the action, the reward and the \<open>done\<close> signal of the environment; it
  ends with the first step that reports \<open>done\<close>. These relations follow the
  specification's words and are compared with the loops above.
\<close>

type_synonym env_step_rec = "real list \<times> real list \<times> real list \<times> real \<times> bool"

inductive rollout ::
  "(real list \<Rightarrow> 'w \<Rightarrow> real list \<times> 'w) \<Rightarrow> 'w env \<Rightarrow> bool
     \<Rightarrow> real list \<Rightarrow> 'w \<Rightarrow> env_step_rec list \<Rightarrow> 'w \<Rightarrow> bool"
  for pol env render where
  rollout_last:
    "pol obs w = (a, w1) \<Longrightarrow> env_step env a w1 = ((n_obs, r, True), w2) \<Longrightarrow>
     w3 = (if render then env_render env w2 else w2) \<Longrightarrow>
     rollout pol env render obs w [(obs, n_obs, a, r, True)] w3"
| rollout_more:
    "pol obs w = (a, w1) \<Longrightarrow> env_step env a w1 = ((n_obs, r, False), w2) \<Longrightarrow>
     w3 = (if render then env_render env w2 else w2) \<Longrightarrow>
     rollout pol env render n_obs w3 tr w' \<Longrightarrow>
     rollout pol env render obs w ((obs, n_obs, a, r, False) # tr) w'"

text \<open>\<open>n\<close> rollouts in a row: the environment is reset before each one and again after
  its last step.\<close>

inductive rollouts ::
  "(real list \<Rightarrow> 'w \<Rightarrow> real list \<times> 'w) \<Rightarrow> 'w env \<Rightarrow> bool
     \<Rightarrow> nat \<Rightarrow> 'w \<Rightarrow> env_step_rec list list \<Rightarrow> 'w \<Rightarrow> bool"
  for pol env render where
  rollouts_none: "rollouts pol env render 0 w [] w"
| rollouts_next:
    "env_reset env w = (obs, w1) \<Longrightarrow> rollout pol env render obs w1 tr w2 \<Longrightarrow>
     w3 = snd (env_reset env w2) \<Longrightarrow> rollouts pol env render n w3 trs w' \<Longrightarrow>
     rollouts pol env render (Suc n) w (tr # trs) w'"

definition reward_of :: "env_step_rec \<Rightarrow> real" where
  "reward_of s = fst (snd (snd (snd s)))"

definition episode_return :: "env_step_rec list \<Rightarrow> real" where
  "episode_return tr = sum_list (map reward_of tr)"

text \<open>State, next state, action and reward of a step or of a transition.\<close>

definition sars :: "'a \<times> 'b \<times> 'c \<times> 'd \<times> 'e \<Rightarrow> 'a \<times> 'b \<times> 'c \<times> 'd" where
  "sars t = (fst t, fst (snd t), fst (snd (snd t)), fst (snd (snd (snd t))))"

text \<open>\<open>memory.add\<close> called on each transition of a list, in order.\<close>

definition add_all :: "(transition \<Rightarrow> 'm \<Rightarrow> 'm) \<Rightarrow> transition list \<Rightarrow> 'm \<Rightarrow> 'm" where
  "add_all add ts m = foldl (\<lambda>m t. add t m) m ts"

text \<open>
  The transitions that the loop records for a sequence of steps when \<open>k\<close> steps were
  counted before it: the counter \<open>steps\<close> of \<open>evaluate\<close> runs over all episodes of the
  call, and the flag is 0 at the step that brings it to \<open>_max_episode_steps\<close>.
\<close>

fun recorded :: "nat \<Rightarrow> nat \<Rightarrow> env_step_rec list \<Rightarrow> transition list" where
  "recorded mx k [] = []"
| "recorded mx k ((obs, n_obs, a, r, d) # tr) =
     (obs, n_obs, a, r, if k + 1 = mx then 0 else py_float d) # recorded mx (k + 1) tr"

text \<open>An action within the declared limits of the action space, component by component.\<close>

definition within_action_space :: "'w env \<Rightarrow> real list \<Rightarrow> bool" where
  "within_action_space env a =
     (list_all2 (\<le>) (action_space_low env) a \<and> list_all2 (\<le>) a (action_space_high env))"

text \<open>A number clipped to an interval, in the specification's sense: itself when it
  lies inside, the nearer end otherwise.\<close>

definition clipped :: "real \<Rightarrow> real \<Rightarrow> real \<Rightarrow> real" where
  "clipped lo hi x = (if x < lo then lo else if hi < x then hi else x)"

subsection \<open>The networks, the buffer and the search engine\<close>

text \<open>
  The command-line arguments that the training loop reads. The script keeps its state in
  module-level variables, and the names below are theirs.
\<close>

record args =
  start_steps :: int
  batch_size :: int
  tau :: real
  pop_size :: int
  n_grad :: int
  n_episodes :: int
  max_steps :: int
  period :: int
  render :: bool

text \<open>
  The collaborators. \<open>memory.add\<close> and \<open>memory.sample\<close> (which draws at random and may
  raise); a network called on a state, and its \<open>get_params\<close>, \<open>set_params\<close> and
  \<open>get_size\<close>; the loss, \<open>backward()\<close> and \<open>optimizer.step()\<close> of \<open>Actor.update\<close>
  (lines 69 to 75) and of \<open>Critic.update\<close> (lines 178 to 192); \<open>es.ask\<close>, \<open>es.tell\<close>
  (which may raise) and \<open>es.mu\<close>.
\<close>

record ('w, 'm, 'ac, 'cr, 'es) collab =
  env :: "'w env"
  mem_add :: "transition \<Rightarrow> 'm \<Rightarrow> 'm"
  mem_sample :: "'m \<Rightarrow> int \<Rightarrow> 'w \<Rightarrow> error + (transition list \<times> 'w)"
  actor_call :: "'ac \<Rightarrow> real list \<Rightarrow> real list"
  actor_get_params :: "'ac \<Rightarrow> real list"
  actor_set_params :: "real list \<Rightarrow> 'ac \<Rightarrow> 'ac"
  actor_get_size :: "'ac \<Rightarrow> int"
  actor_optimize :: "real list list \<Rightarrow> 'cr \<Rightarrow> 'ac \<Rightarrow> 'ac"
  critic_get_params :: "'cr \<Rightarrow> real list"
  critic_set_params :: "real list \<Rightarrow> 'cr \<Rightarrow> 'cr"
  critic_optimize :: "transition list \<Rightarrow> 'ac \<Rightarrow> 'cr \<Rightarrow> 'cr \<Rightarrow> 'cr"
  es_ask :: "int \<Rightarrow> 'es \<Rightarrow> real list list \<times> 'es"
  es_tell :: "real list list \<Rightarrow> npfloat list \<Rightarrow> 'es \<Rightarrow> error + 'es"
  es_mu :: "'es \<Rightarrow> real list"

text \<open>Lines 78 to 80 and 195 to 197:
  \<open>target_param = tau * param + (1 - tau) * target_param\<close>, parameter by parameter.\<close>

definition soft_update :: "real \<Rightarrow> real list \<Rightarrow> real list \<Rightarrow> real list" where
  "soft_update t ps target_ps =
     map2 (\<lambda>param target_param. t * param + (1 - t) * target_param) ps target_ps"

text \<open>
  \<open>Actor.update(memory, batch_size, critic, actor_t)\<close>, lines 64 to 80: sample the
  buffer, keep the states, take one optimizer step, blend the target. Nothing tests the
  size of the buffer; an exception of \<open>memory.sample\<close> leaves the method.
\<close>

definition Actor_update ::
  "('w, 'm, 'ac, 'cr, 'es) collab \<Rightarrow> args \<Rightarrow> 'ac \<Rightarrow> 'm \<Rightarrow> int \<Rightarrow> 'cr \<Rightarrow> 'ac \<Rightarrow> 'w
     \<Rightarrow> error + (('ac \<times> 'ac) \<times> 'w)" where
  "Actor_update C a self mem bs crit actor_t w =
     (case mem_sample C mem bs w of
        Inl e \<Rightarrow> Inl e
      | Inr (batch, w') \<Rightarrow>
          (let self' = actor_optimize C (map fst batch) crit self;
               actor_t' = actor_set_params C
                 (soft_update (tau a) (actor_get_params C self') (actor_get_params C actor_t)) actor_t
           in Inr ((self', actor_t'), w')))"

text \<open>\<open>Critic.update(memory, batch_size, actor_t, critic_t)\<close>, lines 173 to 197.\<close>

definition Critic_update ::
  "('w, 'm, 'ac, 'cr, 'es) collab \<Rightarrow> args \<Rightarrow> 'cr \<Rightarrow> 'm \<Rightarrow> int \<Rightarrow> 'ac \<Rightarrow> 'cr \<Rightarrow> 'w
     \<Rightarrow> error + (('cr \<times> 'cr) \<times> 'w)" where
  "Critic_update C a self mem bs actor_t crit_t w =
     (case mem_sample C mem bs w of
        Inl e \<Rightarrow> Inl e
      | Inr (batch, w') \<Rightarrow>
          (let self' = critic_optimize C batch actor_t crit_t self;
               crit_t' = critic_set_params C
                 (soft_update (tau a) (critic_get_params C self') (critic_get_params C crit_t)) crit_t
           in Inr ((self', crit_t'), w')))"

text \<open>A row of the run log \<open>df\<close> (lines 361 to 365) and the files of one checkpoint
  directory (lines 366 to 375).\<close>

record res =
  res_total_steps :: int
  average_score_ea :: npfloat
  average_score_rl :: npfloat
  average_score :: npfloat
  best_score :: npfloat

record ('cr, 'ac) checkpoint =
  saved_critic :: 'cr
  saved_actors :: "'ac list"
  saved_actor_mu :: 'ac

text \<open>
  The module-level variables of the training script, with the world (the environment
  and the random generators) and the two things it writes: \<open>log.pkl\<close>, absent until
  first written, and the checkpoint directories, each named by its \<open>total_steps\<close>, in
  the order of writing. \<open>f\<close> is unbound until a first evaluation assigns it.
\<close>

record ('w, 'm, 'ac, 'cr, 'es) globals =
  max_action :: int
  world :: 'w
  memory :: 'm
  critic :: 'cr
  critic_t :: 'cr
  actors :: "'ac list"
  actors_t :: "'ac list"
  actor_ea :: 'ac
  es :: 'es
  total_steps :: int
  actor_steps :: int
  step_cpt :: int
  df :: "res list"
  fitness_rl :: "npfloat list"
  fitness_ea :: "npfloat list"
  rl_params :: "real list list"
  ea_params :: "real list list"
  f :: "npfloat option"
  fitness :: "npfloat list"
  params :: "real list list"
  log_pkl :: "res list option"
  steps_dirs :: "(int \<times> ('cr, 'ac) checkpoint) list"

text \<open>What a piece of the script comes to: \<open>None\<close> when it never returns,
  \<open>Some (Inl e)\<close> when it raises \<open>e\<close>, \<open>Some (Inr s)\<close> when it leaves the state \<open>s\<close>.
  \<open>for_each\<close> is a \<open>for\<close> loop over a list.\<close>

type_synonym 'a outcome = "(error + 'a) option"

fun for_each :: "('x \<Rightarrow> 's \<Rightarrow> 's outcome) \<Rightarrow> 'x list \<Rightarrow> 's \<Rightarrow> 's outcome" where
  "for_each body [] s = Some (Inr s)"
| "for_each body (x # xs) s =
     (case body x s of
        None \<Rightarrow> None
      | Some (Inl e) \<Rightarrow> Some (Inl e)
      | Some (Inr s') \<Rightarrow> for_each body xs s')"

text \<open>Lines 315 to 322, for actor \<open>i\<close>: the actor's update, then the critic's, which
  is given the updated actor where its parameter is called \<open>actor_t\<close>.\<close>

definition rl_update ::
  "('w, 'm, 'ac, 'cr, 'es) collab \<Rightarrow> args \<Rightarrow> nat \<Rightarrow> ('w, 'm, 'ac, 'cr, 'es) globals
     \<Rightarrow> ('w, 'm, 'ac, 'cr, 'es) globals outcome" where
  "rl_update C a i s =
     (if length (actors s) \<le> i \<or> length (actors_t s) \<le> i then Some (Inl IndexError)
      else case Actor_update C a (actors s ! i) (memory s) (batch_size a) (critic s)
                  (actors_t s ! i) (world s) of
        Inl e \<Rightarrow> Some (Inl e)
      | Inr ((actor, actor_t), w1) \<Rightarrow>
          (case Critic_update C a (critic s) (memory s) (batch_size a) actor (critic_t s) w1 of
             Inl e \<Rightarrow> Some (Inl e)
           | Inr ((crit, crit_t), w2) \<Rightarrow>
               Some (Inr (s\<lparr>world := w2, critic := crit, critic_t := crit_t,
                            actors := (actors s)[i := actor],
                            actors_t := (actors_t s)[i := actor_t]\<rparr>))))"

text \<open>Lines 324 to 329, for actor \<open>i\<close>.\<close>

definition rl_evaluate ::
  "('w, 'm, 'ac, 'cr, 'es) collab \<Rightarrow> args \<Rightarrow> nat \<Rightarrow> ('w, 'm, 'ac, 'cr, 'es) globals
     \<Rightarrow> ('w, 'm, 'ac, 'cr, 'es) globals outcome" where
  "rl_evaluate C a i s =
     (if length (actors s) \<le> i then Some (Inl IndexError)
      else case evaluate (mem_add C) (max_action s) (actor_call C (actors s ! i)) (env C)
                  (Some (memory s)) (n_episodes a) False None (render a) (world s) of
        None \<Rightarrow> None
      | Some ((fit, steps), w', mem) \<Rightarrow>
          Some (Inr (s\<lparr>world := w',
                       memory := (case mem of Some m \<Rightarrow> m | None \<Rightarrow> memory s),
                       actor_steps := actor_steps s + int steps,
                       rl_params := rl_params s @ [actor_get_params C (actors s ! i)],
                       fitness_rl := fitness_rl s @ [fit],
                       f := Some fit\<rparr>)))"

text \<open>The body of \<open>for i in range(args.n_grad)\<close>.\<close>

definition rl_body ::
  "('w, 'm, 'ac, 'cr, 'es) collab \<Rightarrow> args \<Rightarrow> nat \<Rightarrow> ('w, 'm, 'ac, 'cr, 'es) globals
     \<Rightarrow> ('w, 'm, 'ac, 'cr, 'es) globals outcome" where
  "rl_body C a i s =
     (case rl_update C a i s of
        None \<Rightarrow> None
      | Some (Inl e) \<Rightarrow> Some (Inl e)
      | Some (Inr s') \<Rightarrow> rl_evaluate C a i s')"

text \<open>Lines 311 to 332. The \<open>prRed\<close> after the loop formats \<open>f\<close> and raises \<open>NameError\<close>
  when no evaluation has bound it yet.\<close>

definition rl_phase ::
  "('w, 'm, 'ac, 'cr, 'es) collab \<Rightarrow> args \<Rightarrow> ('w, 'm, 'ac, 'cr, 'es) globals
     \<Rightarrow> ('w, 'm, 'ac, 'cr, 'es) globals outcome" where
  "rl_phase C a s =
     (if start_steps a < total_steps s then
        (case for_each (rl_body C a) [0 ..< nat (n_grad a)] s of
           None \<Rightarrow> None
         | Some (Inl e) \<Rightarrow> Some (Inl e)
         | Some (Inr s') \<Rightarrow> (if f s' = None then Some (Inl NameError) else Some (Inr s')))
      else Some (Inr s))"

text \<open>The body of \<open>for params in ea_params\<close>, lines 338 to 342.\<close>

definition ea_body ::
  "('w, 'm, 'ac, 'cr, 'es) collab \<Rightarrow> args \<Rightarrow> real list \<Rightarrow> ('w, 'm, 'ac, 'cr, 'es) globals
     \<Rightarrow> ('w, 'm, 'ac, 'cr, 'es) globals outcome" where
  "ea_body C a ps s =
     (let actor = actor_set_params C ps (actor_ea s)
      in case evaluate (mem_add C) (max_action s) (actor_call C actor) (env C)
                (Some (memory s)) (n_episodes a) False None (render a) (world s) of
           None \<Rightarrow> None
         | Some ((fit, steps), w', mem) \<Rightarrow>
             Some (Inr (s\<lparr>world := w',
                          memory := (case mem of Some m \<Rightarrow> m | None \<Rightarrow> memory s),
                          actor_ea := actor,
                          actor_steps := actor_steps s + int steps,
                          fitness_ea := fitness_ea s @ [fit],
                          f := Some fit\<rparr>)))"

text \<open>
  Lines 358 to 378. \<open>df.to_pickle\<close> comes first, then the row \<open>res\<close> (\<open>np.max\<close> raises on
  an empty array), the checkpoint files (\<open>actors[i]\<close> for \<open>i\<close> in \<open>range(n_grad)\<close>),
  \<open>actor_ea.set_params(es.mu)\<close>, \<open>df.append\<close> and the reset of \<open>step_cpt\<close>.
\<close>

definition save_stuff ::
  "('w, 'm, 'ac, 'cr, 'es) collab \<Rightarrow> args \<Rightarrow> ('w, 'm, 'ac, 'cr, 'es) globals
     \<Rightarrow> ('w, 'm, 'ac, 'cr, 'es) globals outcome" where
  "save_stuff C a s =
     (if period a \<le> step_cpt s then
        (let s1 = s\<lparr>log_pkl := Some (df s)\<rparr>
         in case np_max (fitness s1) of
              Inl e \<Rightarrow> Some (Inl e)
            | Inr best \<Rightarrow>
                (let r = \<lparr>res_total_steps = total_steps s1,
                          average_score_ea = np_mean (fitness_ea s1),
                          average_score_rl = np_mean (fitness_rl s1),
                          average_score = np_mean (fitness s1),
                          best_score = best\<rparr>
                 in if length (actors s1) < nat (n_grad a) then Some (Inl IndexError)
                    else
                      (let mu = actor_set_params C (es_mu C (es s1)) (actor_ea s1);
                           ckpt = \<lparr>saved_critic = critic s1,
                                   saved_actors = take (nat (n_grad a)) (actors s1),
                                   saved_actor_mu = mu\<rparr>
                       in Some (Inr (s1\<lparr>steps_dirs := steps_dirs s1 @ [(total_steps s1, ckpt)],
                                        actor_ea := mu,
                                        df := df s1 @ [r],
                                        step_cpt := 0\<rparr>)))))
      else Some (Inr s))"

text \<open>Lines 305 to 308.\<close>

definition gen_ask ::
  "('w, 'm, 'ac, 'cr, 'es) collab \<Rightarrow> args \<Rightarrow> ('w, 'm, 'ac, 'cr, 'es) globals
     \<Rightarrow> ('w, 'm, 'ac, 'cr, 'es) globals" where
  "gen_ask C a s =
     s\<lparr>fitness_rl := [], fitness_ea := [], rl_params := [],
       ea_params := fst (es_ask C (pop_size a) (es s)),
       es := snd (es_ask C (pop_size a) (es s))\<rparr>"

text \<open>Lines 348 and 349.\<close>

definition update_step_counts ::
  "('w, 'm, 'ac, 'cr, 'es) globals \<Rightarrow> ('w, 'm, 'ac, 'cr, 'es) globals" where
  "update_step_counts s =
     s\<lparr>total_steps := total_steps s + actor_steps s,
       step_cpt := step_cpt s + actor_steps s\<rparr>"

text \<open>Lines 352 to 354. \<open>np.concatenate\<close> puts the rows of \<open>rl_params\<close> after those of
  \<open>ea_params\<close>.\<close>

definition combine ::
  "('w, 'm, 'ac, 'cr, 'es) globals \<Rightarrow> ('w, 'm, 'ac, 'cr, 'es) globals" where
  "combine s =
     s\<lparr>fitness := fitness_ea s @ fitness_rl s,
       params := (if length (rl_params s) = 0 then ea_params s
                  else ea_params s @ rl_params s)\<rparr>"

text \<open>One pass through the body of \<open>while total_steps < args.max_steps\<close>, lines 305
  to 380; line 335 sets \<open>actor_steps = 0\<close> between the two loops.\<close>

definition generation ::
  "('w, 'm, 'ac, 'cr, 'es) collab \<Rightarrow> args \<Rightarrow> ('w, 'm, 'ac, 'cr, 'es) globals
     \<Rightarrow> ('w, 'm, 'ac, 'cr, 'es) globals outcome" where
  "generation C a s =
     (case rl_phase C a (gen_ask C a s) of
        None \<Rightarrow> None
      | Some (Inl e) \<Rightarrow> Some (Inl e)
      | Some (Inr s2) \<Rightarrow>
          (case for_each (ea_body C a) (ea_params s2) (s2\<lparr>actor_steps := 0\<rparr>) of
             None \<Rightarrow> None
           | Some (Inl e) \<Rightarrow> Some (Inl e)
           | Some (Inr s3) \<Rightarrow>
               (let s4 = combine (update_step_counts s3)
                in case es_tell C (params s4) (fitness s4) (es s4) of
                     Inl e \<Rightarrow> Some (Inl e)
                   | Inr es' \<Rightarrow> save_stuff C a (s4\<lparr>es := es'\<rparr>))))"

text \<open>The training loop, line 303.\<close>

partial_function (option) main_loop ::
  "('w, 'm, 'ac, 'cr, 'es) collab \<Rightarrow> args \<Rightarrow> ('w, 'm, 'ac, 'cr, 'es) globals
     \<Rightarrow> ('w, 'm, 'ac, 'cr, 'es) globals outcome" where
  "main_loop C a s =
     (if total_steps s < max_steps a then
        (case generation C a s of
           None \<Rightarrow> None
         | Some (Inl e) \<Rightarrow> Some (Inl e)
         | Some (Inr s') \<Rightarrow> main_loop C a s')
      else Some (Inr s))"


declare main_loop.simps [code]

text \<open>\<open>fitness_of C a s actor fit\<close>: in the state \<open>s\<close>, the call
  \<open>evaluate(actor, env, memory=memory, n_episodes=args.n_episodes, render=args.render)\<close>
  returns the fitness \<open>fit\<close>.\<close>

definition fitness_of ::
  "('w, 'm, 'ac, 'cr, 'es) collab \<Rightarrow> args \<Rightarrow> ('w, 'm, 'ac, 'cr, 'es) globals \<Rightarrow> 'ac \<Rightarrow> npfloat
     \<Rightarrow> bool" where
  "fitness_of C a s actor fit =
     (\<exists>steps w' mem'.
        evaluate (mem_add C) (max_action s) (actor_call C actor) (env C) (Some (memory s))
          (n_episodes a) False None (render a) (world s) = Some ((fit, steps), w', mem'))"


subsection \<open>The loop's states and the construction of the engine\<close>

text \<open>The states at the head of the loop: \<open>loop_reach C a s t\<close> when the loop, started
  in \<open>s\<close>, comes to test its condition in \<open>t\<close>.\<close>

inductive loop_reach ::
  "('w, 'm, 'ac, 'cr, 'es) collab \<Rightarrow> args \<Rightarrow> ('w, 'm, 'ac, 'cr, 'es) globals
     \<Rightarrow> ('w, 'm, 'ac, 'cr, 'es) globals \<Rightarrow> bool"
  for C a where
  loop_reach_start: "loop_reach C a s s"
| loop_reach_next:
    "loop_reach C a s t \<Longrightarrow> total_steps t < max_steps a \<Longrightarrow>
     generation C a t = Some (Inr t') \<Longrightarrow> loop_reach C a s t'"

text \<open>\<open>not x\<close> on an integer.\<close>

definition py_not :: "int \<Rightarrow> bool" where
  "py_not x = (x = 0)"

text \<open>Line 295: \<open>antithetic=not args.pop_size % 2\<close>.\<close>

definition antithetic_arg :: "args \<Rightarrow> bool" where
  "antithetic_arg a = py_not (pop_size a mod 2)"

text \<open>
  The arguments of the call \<open>sepCEM(actors[0].get_size(), ..., pop_size=args.pop_size,
  antithetic=not args.pop_size % 2, parents=args.n_grad)\<close> on lines 294 and 295, without
  \<open>sigma_init\<close> and \<open>damp\<close>; \<open>actors[0]\<close> raises when there is no gradient actor.
\<close>

definition sepCEM_args ::
  "('w, 'm, 'ac, 'cr, 'es) collab \<Rightarrow> args \<Rightarrow> 'ac list \<Rightarrow> error + (int \<times> int \<times> bool \<times> int)" where
  "sepCEM_args C a acts =
     (case acts of
        [] \<Rightarrow> Inl IndexError
      | a0 # _ \<Rightarrow> Inr (actor_get_size C a0, pop_size a, antithetic_arg a, n_grad a))"

text \<open>Modelled from the spec: the constructor of \<open>sepCEM\<close> (\<open>ES.py\<close> is not among the
  sources) fails fast when antithetic sampling is requested with an odd population
  size.
\<close>

definition sepCEM_precondition :: "int \<Rightarrow> bool \<Rightarrow> error + unit" where
  "sepCEM_precondition pop antithetic =
     (if antithetic \<and> odd pop then Inl AssertionError else Inr ())"

subsection \<open>Two small environments\<close>

text \<open>
  An environment under a time limit of two steps: the world is the number of steps of
  the running episode and the number of steps taken in all; a step pays reward 1 plus
  the components of its action, and the episode ends at its second step, by the limit
  and never by a terminal state.
\<close>

definition tl_env :: "(nat \<times> nat) env" where
  "tl_env =
     \<lparr>env_reset = (\<lambda>w. ([0], (0, snd w))),
      env_step = (\<lambda>a w. (([real (fst w + 1)], 1 + sum_list a, 2 \<le> fst w + 1),
                         (fst w + 1, snd w + 1))),
      env_render = (\<lambda>w. w),
      env_max_episode_steps = 2,
      action_space_sample = (\<lambda>w. ([0], w)),
      action_space_low = [- 1],
      action_space_high = [1]\<rparr>"

text \<open>
  An action space as that of gym's \<open>CarRacing\<close>: steering in \<open>[-1, 1]\<close>, gas and brake in
  \<open>[0, 1]\<close>. Every episode ends at its first step.
\<close>

definition car_env :: "unit env" where
  "car_env =
     \<lparr>env_reset = (\<lambda>w. ([0], w)),
      env_step = (\<lambda>a w. (([0], 0, True), w)),
      env_render = (\<lambda>w. w),
      env_max_episode_steps = 1000,
      action_space_sample = (\<lambda>w. ([0, 0, 0], w)),
      action_space_low = [- 1, 0, 0],
      action_space_high = [1, 1, 1]\<rparr>"

subsection \<open>A small run\<close>

text \<open>
  Collaborators over the time-limited environment: the buffer is the list of its
  transitions, sampling repeats its first one and raises on an empty buffer, a network
  is its parameter vector and answers every state with it, an optimizer step adds 1 to
  every parameter, the engine asks for copies of its mean. With one candidate and one
  gradient actor, the first two generations are warm-up and the third is active; the
  states are those at the head of the loop.
\<close>

definition toy_C :: "(nat \<times> nat, transition list, real list, real list, real list) collab" where
  "toy_C =
     \<lparr>env = tl_env,
      mem_add = (\<lambda>t m. m @ [t]),
      mem_sample = (\<lambda>m n w. if m = [] then Inl ValueError else Inr (replicate (nat n) (hd m), w)),
      actor_call = (\<lambda>p obs. p),
      actor_get_params = (\<lambda>p. p),
      actor_set_params = (\<lambda>p ac. p),
      actor_get_size = (\<lambda>p. int (length p)),
      actor_optimize = (\<lambda>states c p. map (\<lambda>x. x + 1) p),
      critic_get_params = (\<lambda>c. c),
      critic_set_params = (\<lambda>p c. p),
      critic_optimize = (\<lambda>batch ac ct c. map (\<lambda>x. x + 1) c),
      es_ask = (\<lambda>n mu. (replicate (nat n) mu, mu)),
      es_tell = (\<lambda>ps fs mu. if length ps \<noteq> length fs then Inl AssertionError
                            else Inr (case ps of [] \<Rightarrow> mu | p # _ \<Rightarrow> p)),
      es_mu = (\<lambda>mu. mu)\<rparr>"

definition toy_args :: args where
  "toy_args =
     \<lparr>start_steps = 3, batch_size = 100, tau = 1 / 2, pop_size = 1, n_grad = 1,
      n_episodes = 1, max_steps = 6, period = 6, render = False\<rparr>"

definition toy_init ::
  "(nat \<times> nat, transition list, real list, real list, real list) globals" where
  "toy_init =
     \<lparr>max_action = 1, world = (0, 0), memory = [],
      critic = [0], critic_t = [0], actors = [[0]], actors_t = [[0]], actor_ea = [0],
      es = [0], total_steps = 0, actor_steps = 0, step_cpt = 0, df = [],
      fitness_rl = [], fitness_ea = [], rl_params = [], ea_params = [], f = None,
      fitness = [], params = [], log_pkl = None, steps_dirs = []\<rparr>"


definition toy_gen1 ::
  "(nat \<times> nat, transition list, real list, real list, real list) globals" where
  "toy_gen1 =
     \<lparr>max_action = 1, world = (0, 2),
      memory = [([0], [1], [0], 1, 0), ([1], [2], [0], 1, 0)],
      critic = [0], critic_t = [0], actors = [[0]], actors_t = [[0]], actor_ea = [0],
      es = [0], total_steps = 2, actor_steps = 2, step_cpt = 2, df = [],
      fitness_rl = [], fitness_ea = [Num 2], rl_params = [], ea_params = [[0]],
      f = Some (Num 2), fitness = [Num 2], params = [[0]], log_pkl = None, steps_dirs = []\<rparr>"

definition toy_gen2 ::
  "(nat \<times> nat, transition list, real list, real list, real list) globals" where
  "toy_gen2 =
     \<lparr>max_action = 1, world = (0, 4),
      memory = [([0], [1], [0], 1, 0), ([1], [2], [0], 1, 0),
                ([0], [1], [0], 1, 0), ([1], [2], [0], 1, 0)],
      critic = [0], critic_t = [0], actors = [[0]], actors_t = [[0]], actor_ea = [0],
      es = [0], total_steps = 4, actor_steps = 2, step_cpt = 4, df = [],
      fitness_rl = [], fitness_ea = [Num 2], rl_params = [], ea_params = [[0]],
      f = Some (Num 2), fitness = [Num 2], params = [[0]], log_pkl = None, steps_dirs = []\<rparr>"

definition toy_gen3 ::
  "(nat \<times> nat, transition list, real list, real list, real list) globals" where
  "toy_gen3 =
     \<lparr>max_action = 1, world = (0, 8),
      memory = [([0], [1], [0], 1, 0), ([1], [2], [0], 1, 0),
                ([0], [1], [0], 1, 0), ([1], [2], [0], 1, 0),
                ([0], [1], [1], 2, 0), ([1], [2], [1], 2, 0),
                ([0], [1], [0], 1, 0), ([1], [2], [0], 1, 0)],
      critic = [1], critic_t = [1 / 2], actors = [[1]], actors_t = [[1 / 2]],
      actor_ea = [0], es = [0], total_steps = 6, actor_steps = 2, step_cpt = 0,
      df = [\<lparr>res_total_steps = 6, average_score_ea = Num 2, average_score_rl = Num 4,
             average_score = Num 3, best_score = Num 4\<rparr>],
      fitness_rl = [Num 4], fitness_ea = [Num 2], rl_params = [[1]], ea_params = [[0]],
      f = Some (Num 2), fitness = [Num 2, Num 4], params = [[0], [1]], log_pkl = Some [],
      steps_dirs = [(6, \<lparr>saved_critic = [1], saved_actors = [[1]], saved_actor_mu = [0]\<rparr>)]\<rparr>"

section \<open>Properties of \<open>evaluate\<close>\<close>

subsection \<open>The loops against the rollouts\<close>

lemma recorded_length [simp]: "length (recorded mx k tr) = length tr"
  by (induction mx k tr rule: recorded.induct) auto

lemma recorded_append: "recorded mx k (xs @ ys) = recorded mx k xs @ recorded mx (k + length xs) ys"
  by (induction mx k xs rule: recorded.induct) auto

lemma while_loop_rollout:
  assumes "rollout pol E rnd obs w tr w'"
  shows "\<exists>ob. while_loop add pol E rnd
           \<lparr>lv_world = w, lv_obs = obs, lv_score = sc, lv_steps = k, lv_memory = mem, lv_done = False\<rparr>
         = Some \<lparr>lv_world = snd (env_reset E w'), lv_obs = ob,
                 lv_score = sc + sum_list (map reward_of tr), lv_steps = k + length tr,
                 lv_memory = map_option (add_all add (recorded (env_max_episode_steps E) k tr)) mem,
                 lv_done = True\<rparr>"
  using assms
proof (induction arbitrary: sc k mem rule: rollout.induct)
  case (rollout_last obs w a w1 n_obs r w2 w3)
  show ?case
    apply (subst while_loop.simps)
    apply (subst while_loop.simps)
    using rollout_last
    by (cases mem) (simp_all add: while_body_def reward_of_def add_all_def)
next
  case (rollout_more obs w a w1 n_obs r w2 w3 tr w')
  obtain ob where ob: "while_loop add pol E rnd
      \<lparr>lv_world = w3, lv_obs = n_obs, lv_score = sc + r, lv_steps = k + 1,
        lv_memory = (case mem of None \<Rightarrow> None | Some m \<Rightarrow> Some (add (obs, n_obs, a, r,
             if k + 1 = env_max_episode_steps E then 0 else py_float False) m)), lv_done = False\<rparr>
     = Some \<lparr>lv_world = snd (env_reset E w'), lv_obs = ob,
                 lv_score = (sc + r) + sum_list (map reward_of tr), lv_steps = (k + 1) + length tr,
                 lv_memory = map_option (add_all add (recorded (env_max_episode_steps E) (k + 1) tr))
                    (case mem of None \<Rightarrow> None | Some m \<Rightarrow> Some (add (obs, n_obs, a, r,
             if k + 1 = env_max_episode_steps E then 0 else py_float False) m)),
                 lv_done = True\<rparr>"
    using rollout_more.IH by blast
  show ?case
    apply (subst while_loop.simps)
    using rollout_more.hyps(1,2,3) ob
    by (cases mem) (auto simp add: while_body_def reward_of_def add_all_def)
qed


lemma add_all_append: "add_all add (xs @ ys) m = add_all add ys (add_all add xs m)"
  by (simp add: add_all_def)

lemma recorded_sars: "map sars (recorded mx k tr) = map sars tr"
  by (induction mx k tr rule: recorded.induct) (auto simp: sars_def)

lemma episode_rollout:
  assumes "env_reset E (ev_world e) = (obs, w1)" and "rollout pol E rnd obs w1 tr w2"
  shows "episode add pol E rnd e
         = Some \<lparr>ev_scores = ev_scores e @ [episode_return tr], ev_steps = ev_steps e + length tr,
                 ev_world = snd (env_reset E w2),
                 ev_memory = map_option (add_all add (recorded (env_max_episode_steps E) (ev_steps e) tr))
                               (ev_memory e)\<rparr>"
proof -
  obtain ob where "while_loop add pol E rnd
           \<lparr>lv_world = w1, lv_obs = obs, lv_score = 0, lv_steps = ev_steps e,
              lv_memory = ev_memory e, lv_done = False\<rparr>
         = Some \<lparr>lv_world = snd (env_reset E w2), lv_obs = ob,
                 lv_score = 0 + sum_list (map reward_of tr), lv_steps = ev_steps e + length tr,
                 lv_memory = map_option (add_all add (recorded (env_max_episode_steps E) (ev_steps e) tr))
                               (ev_memory e),
                 lv_done = True\<rparr>"
    using while_loop_rollout [OF assms(2)] by blast
  then show ?thesis
    using assms(1) by (simp add: episode_def episode_return_def)
qed

lemma episodes_rollouts:
  assumes "rollouts pol E rnd n w trs w'"
  shows "episodes add pol E rnd n
           \<lparr>ev_scores = scs, ev_steps = k, ev_world = w, ev_memory = mem\<rparr>
         = Some \<lparr>ev_scores = scs @ map episode_return trs, ev_steps = k + length (concat trs),
                 ev_world = w',
                 ev_memory = map_option (add_all add (recorded (env_max_episode_steps E) k (concat trs))) mem\<rparr>"
  using assms
proof (induction arbitrary: scs k mem rule: rollouts.induct)
  case (rollouts_none w)
  show ?case by (cases mem) (simp_all add: add_all_def)
next
  case (rollouts_next w obs w1 tr w2 w3 n trs w')
  have e: "episode add pol E rnd
           \<lparr>ev_scores = scs, ev_steps = k, ev_world = w, ev_memory = mem\<rparr>
         = Some \<lparr>ev_scores = scs @ [episode_return tr], ev_steps = k + length tr,
                 ev_world = w3,
                 ev_memory = map_option (add_all add (recorded (env_max_episode_steps E) k tr)) mem\<rparr>"
    using episode_rollout [of E "\<lparr>ev_scores = scs, ev_steps = k, ev_world = w, ev_memory = mem\<rparr>"
            obs w1 pol rnd tr w2 add] rollouts_next.hyps(1,2,3) by simp
  have "episodes add pol E rnd (Suc n)
           \<lparr>ev_scores = scs, ev_steps = k, ev_world = w, ev_memory = mem\<rparr>
        = Some \<lparr>ev_scores = (scs @ [episode_return tr]) @ map episode_return trs,
                 ev_steps = (k + length tr) + length (concat trs), ev_world = w',
                 ev_memory = map_option (add_all add
                    (recorded (env_max_episode_steps E) (k + length tr) (concat trs)))
                    (map_option (add_all add (recorded (env_max_episode_steps E) k tr)) mem)\<rparr>"
    by (simp only: episodes.simps e option.case rollouts_next.IH)
  then show ?case
    by (cases mem) (simp_all add: recorded_append add_all_append add.assoc)
qed

lemma rollouts_length: "rollouts pol E rnd n w trs w' \<Longrightarrow> length trs = n"
  by (induction rule: rollouts.induct) auto

lemma evaluate_rollouts:
  assumes "rollouts (policy ma actor E random noise) E rnd (nat n_eps) w trs w'"
  shows "evaluate add ma actor E mem0 n_eps random noise rnd w
         = Some ((np_mean (map Num (map episode_return trs)), length (concat trs)), w',
                 map_option (add_all add (recorded (env_max_episode_steps E) 0 (concat trs))) mem0)"
  by (simp add: evaluate_def episodes_rollouts [OF assms])

lemma np_mean_Num: "xs \<noteq> [] \<Longrightarrow> np_mean (map Num xs) = Num (sum_list xs / real (length xs))"
  by (auto simp: np_mean_def comp_def)

lemma while_loop_Some_rollout:
  fixes add :: "transition \<Rightarrow> 'm \<Rightarrow> 'm" and pol :: "real list \<Rightarrow> 'w \<Rightarrow> real list \<times> 'w"
  assumes "while_loop add pol E rnd v = Some v'"
  shows "\<not> lv_done v \<longrightarrow> (\<exists>tr w'. rollout pol E rnd (lv_obs v) (lv_world v) tr w')"
proof (rule while_loop.raw_induct
    [where P = "\<lambda>add pol E rnd v v'. \<not> lv_done v \<longrightarrow>
                  (\<exists>tr w'. rollout pol E rnd (lv_obs v) (lv_world v) tr w')", OF _ assms])
  fix g :: "(transition \<Rightarrow> 'm \<Rightarrow> 'm) \<Rightarrow> (real list \<Rightarrow> 'w \<Rightarrow> real list \<times> 'w) \<Rightarrow> 'w env \<Rightarrow> bool
     \<Rightarrow> ('w, 'm) loop_vars \<Rightarrow> ('w, 'm) loop_vars option"
  fix add pol E rnd v v'
  assume IH: "\<And>add pol E rnd v y. g add pol E rnd v = Some y \<Longrightarrow>
                \<not> lv_done v \<longrightarrow> (\<exists>tr w'. rollout pol E rnd (lv_obs v) (lv_world v) tr w')"
    and eq: "(if \<not> lv_done v then g add pol E rnd (while_body add pol E rnd v)
              else Some v) = Some v'"
  show "\<not> lv_done v \<longrightarrow> (\<exists>tr w'. rollout pol E rnd (lv_obs v) (lv_world v) tr w')"
  proof
    assume nd: "\<not> lv_done v"
    obtain a w1 where p: "pol (lv_obs v) (lv_world v) = (a, w1)"
      by (cases "pol (lv_obs v) (lv_world v)")
    obtain n_obs r d w2 where st: "env_step E a w1 = ((n_obs, r, d), w2)"
      by (metis prod.exhaust)
    let ?w3 = "if rnd then env_render E w2 else w2"
    let ?v1 = "while_body add pol E rnd v"
    have f1: "g add pol E rnd ?v1 = Some v'"
      using eq nd by simp
    show "\<exists>tr w'. rollout pol E rnd (lv_obs v) (lv_world v) tr w'"
    proof (cases d)
      case True
      have "rollout pol E rnd (lv_obs v) (lv_world v) [(lv_obs v, n_obs, a, r, True)] ?w3"
        using p st True by (intro rollout_last) auto
      then show ?thesis by blast
    next
      case False
      have v1: "\<not> lv_done ?v1" "lv_obs ?v1 = n_obs" "lv_world ?v1 = ?w3"
        using p st False by (simp_all add: while_body_def)
      obtain tr w' where "rollout pol E rnd n_obs ?w3 tr w'"
        using IH [OF f1] v1 by auto
      then have "rollout pol E rnd (lv_obs v) (lv_world v)
                   ((lv_obs v, n_obs, a, r, False) # tr) w'"
        using p st False by (intro rollout_more) auto
      then show ?thesis by blast
    qed
  qed
qed

lemma episodes_Some_rollouts:
  "episodes add pol E rnd n e = Some e' \<Longrightarrow> \<exists>trs w'. rollouts pol E rnd n (ev_world e) trs w'"
proof (induction n arbitrary: e)
  case 0
  show ?case by (intro exI) (rule rollouts_none)
next
  case (Suc n)
  obtain obs w1 where r: "env_reset E (ev_world e) = (obs, w1)"
    by (cases "env_reset E (ev_world e)")
  let ?v0 = "\<lparr>lv_world = w1, lv_obs = obs, lv_score = 0, lv_steps = ev_steps e,
                lv_memory = ev_memory e, lv_done = False\<rparr>"
  obtain e1 where e1: "episode add pol E rnd e = Some e1"
    and rest: "episodes add pol E rnd n e1 = Some e'"
    using Suc.prems by (auto split: option.splits)
  obtain v where "while_loop add pol E rnd ?v0 = Some v"
    using e1 r by (auto simp: episode_def split: option.splits)
  then obtain tr w2 where ro: "rollout pol E rnd obs w1 tr w2"
    using while_loop_Some_rollout [of add pol E rnd ?v0 v] by auto
  have "episode add pol E rnd e
      = Some \<lparr>ev_scores = ev_scores e @ [episode_return tr], ev_steps = ev_steps e + length tr,
                 ev_world = snd (env_reset E w2),
                 ev_memory = map_option (add_all add (recorded (env_max_episode_steps E) (ev_steps e) tr)) (ev_memory e)\<rparr>"
    using episode_rollout [OF r ro] .
  then have w: "ev_world e1 = snd (env_reset E w2)"
    using e1 by auto
  obtain trs w' where "rollouts pol E rnd n (snd (env_reset E w2)) trs w'"
    using Suc.IH [OF rest] w by auto
  then have "rollouts pol E rnd (Suc n) (ev_world e) (tr # trs) w'"
    using r ro by (intro rollouts_next) auto
  then show ?case by blast
qed


text \<open>\<open>evaluate\<close> returns exactly when its rollouts exist, and then with their returns,
  their steps and their transitions.\<close>

lemma evaluate_Some_iff:
  "evaluate add ma actor E mem0 n_eps random noise rnd w = Some (r, w', mem') \<longleftrightarrow>
     (\<exists>trs. rollouts (policy ma actor E random noise) E rnd (nat n_eps) w trs w'
        \<and> r = (np_mean (map Num (map episode_return trs)), length (concat trs))
        \<and> mem' = map_option (add_all add (recorded (env_max_episode_steps E) 0 (concat trs))) mem0)"
  (is "?L \<longleftrightarrow> ?R")
proof
  assume l: ?L
  then obtain e where
    "episodes add (policy ma actor E random noise) E rnd (nat n_eps)
       \<lparr>ev_scores = [], ev_steps = 0, ev_world = w, ev_memory = mem0\<rparr> = Some e"
    by (auto simp: evaluate_def split: option.splits)
  then obtain trs w'' where
    ro: "rollouts (policy ma actor E random noise) E rnd (nat n_eps) w trs w''"
    using episodes_Some_rollouts by fastforce
  show ?R
    using l ro evaluate_rollouts [OF ro, of add mem0] by auto
next
  assume ?R
  then obtain trs where
    ro: "rollouts (policy ma actor E random noise) E rnd (nat n_eps) w trs w'"
    and r: "r = (np_mean (map Num (map episode_return trs)), length (concat trs))"
    and m: "mem' = map_option (add_all add (recorded (env_max_episode_steps E) 0 (concat trs))) mem0"
    by blast
  show ?L
    by (simp add: evaluate_rollouts [OF ro] r m)
qed

subsection \<open>The time-limited environment, run twice\<close>

lemma tl_policy: "policy 1 (\<lambda>_. [0]) tl_env False None obs w = ([0], w)"
  by (simp add: policy_def np_clip_def)

lemma tl_rollout:
  "rollout (policy 1 (\<lambda>_. [0]) tl_env False None) tl_env False [0] (0, t)
     [([0], [1], [0], 1, False), ([1], [2], [0], 1, True)] (2, t + 2)"
proof -
  have s1: "env_step tl_env [0] (0, t) = (([1], 1, False), (1, t + 1))"
    by (simp add: tl_env_def)
  have s2: "env_step tl_env [0] (1, t + 1) = (([2], 1, True), (2, t + 2))"
    by (simp add: tl_env_def)
  have "rollout (policy 1 (\<lambda>_. [0]) tl_env False None) tl_env False [1] (1, t + 1)
          [([1], [2], [0], 1, True)] (2, t + 2)"
    using rollout_last [where pol = "policy 1 (\<lambda>_. [0]) tl_env False None" and obs = "[1]"
        and w = "(1, t + 1)" and render = False, OF tl_policy s2]
    by simp
  then show ?thesis
    using rollout_more [where pol = "policy 1 (\<lambda>_. [0]) tl_env False None" and obs = "[0]"
        and w = "(0, t)" and render = False, OF tl_policy s1]
    by simp
qed

lemma tl_rollouts:
  "rollouts (policy 1 (\<lambda>_. [0]) tl_env False None) tl_env False (nat 2) (0, 0)
     [[([0], [1], [0], 1, False), ([1], [2], [0], 1, True)],
      [([0], [1], [0], 1, False), ([1], [2], [0], 1, True)]] (0, 4)"
proof -
  have r0: "env_reset tl_env (e, t) = ([0], (0, t))" for e t
    by (simp add: tl_env_def)
  have n2: "nat 2 = Suc (Suc 0)"
    by simp
  have "rollouts (policy 1 (\<lambda>_. [0]) tl_env False None) tl_env False 0 (0, 4) [] (0, 4)"
    by (rule rollouts_none)
  then have "rollouts (policy 1 (\<lambda>_. [0]) tl_env False None) tl_env False (Suc 0) (0, 2)
     [[([0], [1], [0], 1, False), ([1], [2], [0], 1, True)]] (0, 4)"
    using rollouts_next [OF r0 tl_rollout [of 2], of "(0, 4)" 0 "[]" "(0, 4)" 0] r0 by simp
  then show ?thesis
    unfolding n2
    using rollouts_next [OF r0 tl_rollout [of 0], of "(0, 2)" "Suc 0" _ "(0, 4)" 0] r0 by simp
qed

lemma tl_evaluate:
  "evaluate (\<lambda>t m. m @ [t]) 1 (\<lambda>_. [0]) tl_env (Some []) 2 False None False (0, 0)
     = Some ((Num 2, 4), (0, 4),
         Some [([0], [1], [0], 1, 0), ([1], [2], [0], 1, 0),
               ([0], [1], [0], 1, 0), ([1], [2], [0], 1, 1)])"
proof -
  have mx: "env_max_episode_steps tl_env = 2"
    by (simp add: tl_env_def)
  show ?thesis
    by (simp add: evaluate_rollouts [OF tl_rollouts] mx np_mean_def episode_return_def
        reward_of_def add_all_def py_float_def)
qed

subsection \<open>The return and the step count\<close>

text \<open>
  Claim C8. For \<open>n_eps \<ge> 1\<close>, a call of \<open>evaluate\<close> returns exactly when its \<open>n_eps\<close>
  rollouts exist (every episode reaches \<open>done\<close>), the environment being reset before
  each rollout and after its last step; the first returned value is then the
  arithmetic mean of the rollouts' cumulative rewards and the second the total number
  of their steps.
\<close>

theorem evaluate_mean_and_steps:
  assumes "1 \<le> n_eps"
  shows "evaluate add ma actor E mem0 n_eps random noise rnd w = Some ((fit, steps), w', mem')
     \<longleftrightarrow> (\<exists>trs. rollouts (policy ma actor E random noise) E rnd (nat n_eps) w trs w'
            \<and> length trs = nat n_eps
            \<and> fit = Num (sum_list (map episode_return trs) / real_of_int n_eps)
            \<and> steps = sum_list (map length trs)
            \<and> mem' = map_option (add_all add (recorded (env_max_episode_steps E) 0 (concat trs))) mem0)"
  (is "?L \<longleftrightarrow> ?R")
proof -
  have mean: "np_mean (map Num (map episode_return trs))
                = Num (sum_list (map episode_return trs) / real_of_int n_eps)"
    if "length trs = nat n_eps" for trs :: "env_step_rec list list"
  proof -
    have "map episode_return trs \<noteq> []"
      using that assms by auto
    moreover have "real (length trs) = real_of_int n_eps"
      using that assms by simp
    ultimately show ?thesis
      using np_mean_Num [of "map episode_return trs"] by simp
  qed
  show ?thesis
  proof
    assume ?L
    then obtain trs where
      ro: "rollouts (policy ma actor E random noise) E rnd (nat n_eps) w trs w'"
      and r: "(fit, steps) = (np_mean (map Num (map episode_return trs)), length (concat trs))"
      and m: "mem' = map_option (add_all add (recorded (env_max_episode_steps E) 0 (concat trs))) mem0"
      unfolding evaluate_Some_iff by blast
    have len: "length trs = nat n_eps"
      using rollouts_length [OF ro] .
    show ?R
      using ro len r m mean [OF len] by (auto simp: length_concat)
  next
    assume ?R
    then obtain trs where
      ro: "rollouts (policy ma actor E random noise) E rnd (nat n_eps) w trs w'"
      and len: "length trs = nat n_eps"
      and fit: "fit = Num (sum_list (map episode_return trs) / real_of_int n_eps)"
      and steps: "steps = sum_list (map length trs)"
      and m: "mem' = map_option (add_all add (recorded (env_max_episode_steps E) 0 (concat trs))) mem0"
      by blast
    show ?L
      unfolding evaluate_Some_iff
      using ro fit steps m mean [OF len] by (auto simp: length_concat)
  qed
qed

theorem evaluate_mean_and_steps_witness:
  "(1::int) \<le> 2 \<and>
   evaluate (\<lambda>t m. m @ [t]) 1 (\<lambda>_. [0]) tl_env None 2 False None False (0, 0)
     = Some ((Num ((2 + 2) / 2), 2 + 2), (0, 4), None)"
proof -
  let ?trs = "[[([0], [1], [0], 1, False), ([1], [2], [0], 1, True)],
      [([0], [1], [0], 1, False), ([1], [2], [0], 1, True :: bool)]] :: env_step_rec list list"
  have h: "(1::int) \<le> 2"
    by simp
  have "\<exists>trs. rollouts (policy 1 (\<lambda>_. [0]) tl_env False None) tl_env False (nat 2) (0, 0) trs (0, 4)
      \<and> length trs = nat 2
      \<and> Num ((2 + 2) / 2) = Num (sum_list (map episode_return trs) / real_of_int 2)
      \<and> (2 + 2 :: nat) = sum_list (map length trs)
      \<and> (None :: transition list option) = map_option (add_all (\<lambda>t m. m @ [t])
            (recorded (env_max_episode_steps tl_env) 0 (concat trs))) None"
    using tl_rollouts by (intro exI [of _ ?trs]) (simp add: episode_return_def reward_of_def)
  then have "evaluate (\<lambda>t m. m @ [t]) 1 (\<lambda>_. [0]) tl_env None 2 False None False (0, 0)
     = Some ((Num ((2 + 2) / 2), 2 + 2), (0, 4), None)"
    by (rule evaluate_mean_and_steps [OF h, THEN iffD2])
  then show ?thesis
    by simp
qed

subsection \<open>The buffer\<close>

text \<open>
  Claim C9. When \<open>evaluate\<close> returns, the buffer it was given has received one
  transition for each environment step of each rollout, in order, with the step's
  state, next state, action and reward, whatever the policy is; and a call without a
  buffer (\<open>None\<close>) leaves none (\<open>map_option\<close> keeps \<open>None\<close>).
\<close>

theorem evaluate_buffer_effect:
  assumes "evaluate add ma actor E mem0 n_eps random noise rnd w = Some ((fit, steps), w', mem')"
  shows "\<exists>trs ts. rollouts (policy ma actor E random noise) E rnd (nat n_eps) w trs w'
           \<and> map sars ts = map sars (concat trs)
           \<and> length ts = steps
           \<and> mem' = map_option (add_all add ts) mem0"
proof -
  obtain trs where
    ro: "rollouts (policy ma actor E random noise) E rnd (nat n_eps) w trs w'"
    and r: "(fit, steps) = (np_mean (map Num (map episode_return trs)), length (concat trs))"
    and m: "mem' = map_option (add_all add (recorded (env_max_episode_steps E) 0 (concat trs))) mem0"
    using assms unfolding evaluate_Some_iff by blast
  let ?ts = "recorded (env_max_episode_steps E) 0 (concat trs)"
  have "map sars ?ts = map sars (concat trs)"
    by (rule recorded_sars)
  moreover have "length ?ts = steps"
    using r by simp
  ultimately show ?thesis
    using ro m by blast
qed

theorem evaluate_buffer_effect_witness:
  "evaluate (\<lambda>t m. m @ [t]) 1 (\<lambda>_. [0]) tl_env (Some []) 2 False None False (0, 0)
     = Some ((Num 2, 4), (0, 4),
         Some [([0], [1], [0], 1, 0), ([1], [2], [0], 1, 0),
               ([0], [1], [0], 1, 0), ([1], [2], [0], 1, 1)]) \<and>
   (\<exists>trs ts. rollouts (policy 1 (\<lambda>_. [0]) tl_env False None) tl_env False (nat 2) (0, 0) trs (0, 4)
           \<and> map sars ts = map sars (concat trs)
           \<and> length ts = 4
           \<and> Some [([0], [1], [0], 1, 0), ([1], [2], [0], 1, 0),
               ([0], [1], [0], 1, 0), ([1], [2], [0], 1, 1)]
              = map_option (add_all (\<lambda>t m. m @ [t]) ts) (Some []))"
  using tl_evaluate evaluate_buffer_effect [OF tl_evaluate] by simp

subsection \<open>The done flag\<close>

text \<open>
  In the first episode of a call the counter is the episode's own, and the flag of the
  last transition is 0 exactly when the episode has the length of the limit.
\<close>

lemma last_flag_of_rollout:
  assumes "rollout pol E rnd obs w tr w'"
  shows "snd (snd (snd (snd (last (recorded mx k tr))))) = (if k + length tr = mx then 0 else 1)"
  using assms
proof (induction arbitrary: k rule: rollout.induct)
  case (rollout_last obs w a w1 n_obs r w2 w3)
  show ?case by (simp add: py_float_def)
next
  case (rollout_more obs w a w1 n_obs r w2 w3 tr w')
  have "recorded mx (k + 1) tr \<noteq> []"
    using rollout_more.hyps(4) by (cases rule: rollout.cases) auto
  then show ?case
    using rollout_more.IH [of "k + 1"] by simp
qed

text \<open>
  Claim C3 asks that the last transition of every episode carries flag 0 exactly when
  the episode ended at the environment's step limit, also in the episodes after the
  first. The script compares the limit with \<open>steps + 1\<close>, and \<open>steps\<close> counts the steps
  of all episodes of the call. In the environment with limit 2, run for two episodes
  that both end at the limit, the last transition of the second episode carries flag 1.
\<close>

theorem done_flag_second_episode:
  "env_max_episode_steps tl_env = 2 \<and>
   rollouts (policy 1 (\<lambda>_. [0]) tl_env False None) tl_env False (nat 2) (0, 0)
     [[([0], [1], [0], 1, False), ([1], [2], [0], 1, True)],
      [([0], [1], [0], 1, False), ([1], [2], [0], 1, True)]] (0, 4) \<and>
   evaluate (\<lambda>t m. m @ [t]) 1 (\<lambda>_. [0]) tl_env (Some []) 2 False None False (0, 0)
     = Some ((Num 2, 4), (0, 4),
         Some [([0], [1], [0], 1, 0), ([1], [2], [0], 1, 0),
               ([0], [1], [0], 1, 0), ([1], [2], [0], 1, 1)])"
  using tl_rollouts tl_evaluate by (simp add: tl_env_def)

subsection \<open>The clipped action\<close>

lemma np_clip_bounds:
  assumes "lo \<le> hi" and "x \<in> set (np_clip a lo hi)"
  shows "lo \<le> x \<and> x \<le> hi"
  using assms by (auto simp: np_clip_def)

lemma np_clip_clipped:
  assumes "lo \<le> hi"
  shows "np_clip xs lo hi = map (clipped lo hi) xs"
  using assms by (auto simp: np_clip_def clipped_def)

lemma rollout_actions:
  assumes "rollout pol E rnd obs w tr w'"
  shows "\<forall>st \<in> set tr. \<exists>ws. fst (snd (snd st)) = fst (pol (fst st) ws)"
  using assms
proof (induction rule: rollout.induct)
  case (rollout_last obs w a w1 n_obs r w2 w3)
  then show ?case by (auto intro: exI [of _ w])
next
  case (rollout_more obs w a w1 n_obs r w2 w3 tr w')
  then show ?case by (auto intro: exI [of _ w])
qed

lemma rollouts_actions:
  assumes "rollouts pol E rnd n w trs w'"
  shows "\<forall>st \<in> set (concat trs). \<exists>ws. fst (snd (snd st)) = fst (pol (fst st) ws)"
  using assms
proof (induction rule: rollouts.induct)
  case (rollouts_none w)
  show ?case by simp
next
  case (rollouts_next w obs w1 tr w2 w3 n trs w')
  then show ?case
    using rollout_actions [OF rollouts_next.hyps(2)] by auto
qed

lemma py_int_trunc:
  "(0 \<le> x \<longrightarrow> real_of_int (py_int x) \<le> x \<and> x < real_of_int (py_int x) + 1)
   \<and> (x < 0 \<longrightarrow> x \<le> real_of_int (py_int x) \<and> real_of_int (py_int x) < x + 1)"
  unfolding py_int_def by (auto; linarith)

text \<open>
  Claim C7, as amended. With a non-random policy and \<open>max_action \<ge> 0\<close>, the action that
  \<open>evaluate\<close> executes is the actor's output, plus the noise sample when a noise source
  is given, with every component clipped to \<open>[-max_action, max_action]\<close>; this holds
  at every step of every rollout of the call. The action is within the declared limits
  of the action space when every lower limit is at most \<open>-max_action\<close> and every upper
  limit at least \<open>max_action\<close>. \<open>max_action\<close> is the first upper limit truncated towards
  zero.
\<close>

theorem action_clipped_to_max_action:
  assumes "0 \<le> ma"
  shows "(\<forall>x \<in> set (fst (policy ma actor E False noise state w)).
            - real_of_int ma \<le> x \<and> x \<le> real_of_int ma)
       \<and> (length (fst (policy ma actor E False noise state w)) = length (action_space_low E)
            \<and> length (action_space_low E) = length (action_space_high E)
            \<and> (\<forall>l \<in> set (action_space_low E). l \<le> - real_of_int ma)
            \<and> (\<forall>h \<in> set (action_space_high E). real_of_int ma \<le> h)
          \<longrightarrow> within_action_space E (fst (policy ma actor E False noise state w)))
       \<and> policy ma actor E False None state w
            = (map (clipped (- real_of_int ma) (real_of_int ma)) (actor state), w)
       \<and> (\<forall>sample. policy ma actor E False (Some sample) state w
            = (map (clipped (- real_of_int ma) (real_of_int ma))
                 (map2 (+) (actor state) (fst (sample w))), snd (sample w)))
       \<and> (\<forall>r w' mem'.
             evaluate add ma actor E mem0 n_eps False noise rnd w = Some (r, w', mem')
             \<longrightarrow> (\<exists>trs. rollouts (policy ma actor E False noise) E rnd (nat n_eps) w trs w'
                    \<and> (\<forall>st \<in> set (concat trs).
                          (\<exists>ws. fst (snd (snd st))
                                  = fst (policy ma actor E False noise (fst st) ws))
                          \<and> (\<forall>x \<in> set (fst (snd (snd st))).
                                - real_of_int ma \<le> x \<and> x \<le> real_of_int ma))))
       \<and> (case max_action_of E of
             Inl e \<Rightarrow> e = IndexError \<and> action_space_high E = []
           | Inr m \<Rightarrow>
               (\<exists>h hs. action_space_high E = h # hs
                  \<and> (0 \<le> h \<longrightarrow> real_of_int m \<le> h \<and> h < real_of_int m + 1)
                  \<and> (h < 0 \<longrightarrow> h \<le> real_of_int m \<and> real_of_int m < h + 1)))"
proof -
  have le: "- real_of_int ma \<le> real_of_int ma"
    using assms by simp
  have b: "- real_of_int ma \<le> x \<and> x \<le> real_of_int ma"
    if "x \<in> set (fst (policy ma actor E False noise' state' w''))" for x noise' state' w''
  proof -
    obtain raw where
      "fst (policy ma actor E False noise' state' w'') = np_clip raw (- real_of_int ma) (real_of_int ma)"
      by (simp add: policy_def Let_def)
    then show ?thesis
      using np_clip_bounds [OF le] that by simp
  qed
  let ?act = "fst (policy ma actor E False noise state w)"
  have within: "within_action_space E ?act"
    if len: "length ?act = length (action_space_low E)"
       "length (action_space_low E) = length (action_space_high E)"
      and lo: "\<forall>l \<in> set (action_space_low E). l \<le> - real_of_int ma"
      and hi: "\<forall>h \<in> set (action_space_high E). real_of_int ma \<le> h"
  proof -
    have "list_all2 (\<le>) (action_space_low E) ?act"
      unfolding list_all2_conv_all_nth
    proof (intro conjI allI impI)
      show "length (action_space_low E) = length ?act"
        using len by simp
      fix i assume i: "i < length (action_space_low E)"
      then have "action_space_low E ! i \<le> - real_of_int ma"
        using lo nth_mem by blast
      moreover have "- real_of_int ma \<le> ?act ! i"
        using b [of "?act ! i" noise state w] i len by simp
      ultimately show "action_space_low E ! i \<le> ?act ! i"
        by linarith
    qed
    moreover have "list_all2 (\<le>) ?act (action_space_high E)"
      unfolding list_all2_conv_all_nth
    proof (intro conjI allI impI)
      show "length ?act = length (action_space_high E)"
        using len by simp
      fix i assume i: "i < length ?act"
      then have "real_of_int ma \<le> action_space_high E ! i"
        using hi len nth_mem by metis
      moreover have "?act ! i \<le> real_of_int ma"
        using b [of "?act ! i" noise state w] i by simp
      ultimately show "?act ! i \<le> action_space_high E ! i"
        by linarith
    qed
    ultimately show ?thesis
      by (simp add: within_action_space_def)
  qed
  have none: "policy ma actor E False None state w
            = (map (clipped (- real_of_int ma) (real_of_int ma)) (actor state), w)"
    by (simp add: policy_def np_clip_clipped [OF le])
  have some: "policy ma actor E False (Some sample) state w
            = (map (clipped (- real_of_int ma) (real_of_int ma))
                 (map2 (+) (actor state) (fst (sample w))), snd (sample w))" for sample
    by (simp add: policy_def np_clip_clipped [OF le])
  have steps: "\<exists>trs. rollouts (policy ma actor E False noise) E rnd (nat n_eps) w trs w'
                    \<and> (\<forall>st \<in> set (concat trs).
                          (\<exists>ws. fst (snd (snd st))
                                  = fst (policy ma actor E False noise (fst st) ws))
                          \<and> (\<forall>x \<in> set (fst (snd (snd st))).
                                - real_of_int ma \<le> x \<and> x \<le> real_of_int ma))"
    if ev: "evaluate add ma actor E mem0 n_eps False noise rnd w = Some (r, w', mem')"
    for r w' mem'
  proof -
    obtain trs where
      ro: "rollouts (policy ma actor E False noise) E rnd (nat n_eps) w trs w'"
      using ev unfolding evaluate_Some_iff by blast
    have "(\<exists>ws. fst (snd (snd st)) = fst (policy ma actor E False noise (fst st) ws))
          \<and> (\<forall>x \<in> set (fst (snd (snd st))). - real_of_int ma \<le> x \<and> x \<le> real_of_int ma)"
      if st: "st \<in> set (concat trs)" for st
    proof -
      obtain ws where ws: "fst (snd (snd st)) = fst (policy ma actor E False noise (fst st) ws)"
        using rollouts_actions [OF ro] st by blast
      then show ?thesis
        using b [of _ noise "fst st" ws] by auto
    qed
    then show ?thesis
      using ro by blast
  qed
  have trunc: "case max_action_of E of
             Inl e \<Rightarrow> e = IndexError \<and> action_space_high E = []
           | Inr m \<Rightarrow>
               (\<exists>h hs. action_space_high E = h # hs
                  \<and> (0 \<le> h \<longrightarrow> real_of_int m \<le> h \<and> h < real_of_int m + 1)
                  \<and> (h < 0 \<longrightarrow> h \<le> real_of_int m \<and> real_of_int m < h + 1))"
    using py_int_trunc by (cases "action_space_high E") (simp_all add: max_action_of_def)
  show ?thesis
    using b [of _ noise state w] within none some steps trunc by blast
qed

theorem action_clipped_to_max_action_witness:
  "(0::int) \<le> 1 \<and> max_action_of tl_env = Inr 1
   \<and> fst (policy 1 (\<lambda>_. [3]) tl_env False None [0] (0, 0)) = [1]
   \<and> within_action_space tl_env (fst (policy 1 (\<lambda>_. [3]) tl_env False None [0] (0, 0)))
   \<and> policy 1 (\<lambda>_. [1 / 4]) tl_env False (Some (\<lambda>w. ([1 / 4], w))) [0] (0, 0)
        = ([1 / 2], (0, 0))
   \<and> policy 1 (\<lambda>_. [- 3]) tl_env False None [0] (0, 0) = ([- 1], (0, 0))"
proof -
  have h: "(0::int) \<le> 1"
    by simp
  note t = action_clipped_to_max_action
    [OF h, where E = tl_env and state = "[0]" and w = "(0, 0)" and noise = None
       and add = "\<lambda>t m. m @ [t]" and ?mem0.0 = "Some []" and n_eps = 1 and rnd = False]
  note c2 = t [of "\<lambda>_. [3]", THEN conjunct2, THEN conjunct1]
  note c3 = t [THEN conjunct2, THEN conjunct2, THEN conjunct1]
  note c4 = t [THEN conjunct2, THEN conjunct2, THEN conjunct2, THEN conjunct1, rule_format]
  have p: "fst (policy 1 (\<lambda>_. [3]) tl_env False None [0] (0, 0)) = [1]"
    using c3 [of "\<lambda>_. [3]"] by (simp add: clipped_def)
  have "within_action_space tl_env (fst (policy 1 (\<lambda>_. [3]) tl_env False None [0] (0, 0)))"
    using c2 by (simp add: p) (simp add: tl_env_def)
  moreover have "policy 1 (\<lambda>_. [1 / 4]) tl_env False (Some (\<lambda>w. ([1 / 4], w))) [0] (0, 0)
        = ([1 / 2], (0, 0))"
    using c4 [of "\<lambda>_. [1 / 4]" "\<lambda>w. ([1 / 4], w)"] by (simp add: clipped_def)
  moreover have "policy 1 (\<lambda>_. [- 3]) tl_env False None [0] (0, 0) = ([- 1], (0, 0))"
    using c3 [of "\<lambda>_. [- 3]"] by (simp add: clipped_def)
  ultimately show ?thesis
    using p by (simp add: max_action_of_def tl_env_def py_int_def)
qed

text \<open>
  Claim C7 as stated fails: \<open>max_action\<close> is read from the first upper limit alone. In an
  action space with limits \<open>[-1, 1]\<close>, \<open>[0, 1]\<close>, \<open>[0, 1]\<close> the script computes
  \<open>max_action = 1\<close>, and the action \<open>[0, -1/2, 0]\<close> of the actor is executed as it is,
  below the lower limit of the second component.
\<close>

theorem clip_outside_action_space_counterexample:
  "max_action_of car_env = Inr 1 \<and>
   \<not> within_action_space car_env
       (fst (policy 1 (\<lambda>_. [0, - (1 / 2), 0]) car_env False None [0] ()))"
  by (simp add: max_action_of_def car_env_def py_int_def policy_def np_clip_def
      within_action_space_def)

section \<open>Properties of the training loop\<close>

subsection \<open>Loops over lists\<close>

lemma for_each_append:
  "for_each body (xs @ ys) s =
     (case for_each body xs s of
        None \<Rightarrow> None
      | Some (Inl e) \<Rightarrow> Some (Inl e)
      | Some (Inr s') \<Rightarrow> for_each body ys s')"
  by (induction xs arbitrary: s) (auto split: option.splits sum.splits)

lemma for_each_snoc_Ok:
  assumes "for_each body (xs @ [x]) s = Some (Inr s')"
  obtains sm where "for_each body xs s = Some (Inr sm)" and "body x sm = Some (Inr s')"
  using assms by (auto simp: for_each_append split: option.splits sum.splits)

lemma for_each_Cons_Ok:
  assumes "for_each body (x # xs) s = Some (Inr s')"
  obtains sm where "body x s = Some (Inr sm)" and "for_each body xs sm = Some (Inr s')"
  using assms by (auto split: option.splits sum.splits)

lemma for_each_invariant:
  assumes "for_each body xs s = Some (Inr s')" and "P s"
    and "\<And>x t t'. x \<in> set xs \<Longrightarrow> P t \<Longrightarrow> body x t = Some (Inr t') \<Longrightarrow> P t'"
  shows "P s'"
  using assms
proof (induction xs arbitrary: s)
  case Nil
  then show ?case by simp
next
  case (Cons x xs)
  obtain sm where b: "body x s = Some (Inr sm)" and r: "for_each body xs sm = Some (Inr s')"
    using Cons.prems(1) by (rule for_each_Cons_Ok)
  have "P sm"
    using Cons.prems(3) [of x s sm] Cons.prems(2) b by simp
  moreover have "P t'" if "y \<in> set xs" "P t" "body y t = Some (Inr t')" for y t t'
    using Cons.prems(3) [of y t t'] that by simp
  ultimately show ?case
    using Cons.IH [OF r] by blast
qed

subsection \<open>What one pass of each loop body changes\<close>

lemma ea_body_Ok:
  assumes "ea_body C a p s = Some (Inr s')"
  obtains fit steps where
    "fitness_of C a s (actor_set_params C p (actor_ea s)) fit"
    "s' = s\<lparr>world := world s', memory := memory s',
            actor_ea := actor_set_params C p (actor_ea s),
            actor_steps := actor_steps s + int steps,
            fitness_ea := fitness_ea s @ [fit], f := Some fit\<rparr>"
  using assms
  by (auto simp: ea_body_def fitness_of_def Let_def split: option.splits)

lemma rl_update_Ok:
  assumes "rl_update C a i s = Some (Inr s')"
  obtains batch w1 actor where
    "i < length (actors s)"
    "mem_sample C (memory s) (batch_size a) (world s) = Inr (batch, w1)"
    "actor = actor_optimize C (map fst batch) (critic s) (actors s ! i)"
    "s' = s\<lparr>world := world s', critic := critic s', critic_t := critic_t s',
            actors := (actors s)[i := actor], actors_t := actors_t s'\<rparr>"
  using assms
  by (auto simp: rl_update_def Actor_update_def Critic_update_def Let_def
      split: if_splits sum.splits prod.splits)

lemma rl_evaluate_Ok:
  assumes "rl_evaluate C a i s = Some (Inr s')"
  obtains fit steps where
    "i < length (actors s)"
    "fitness_of C a s (actors s ! i) fit"
    "s' = s\<lparr>world := world s', memory := memory s',
            actor_steps := actor_steps s + int steps,
            rl_params := rl_params s @ [actor_get_params C (actors s ! i)],
            fitness_rl := fitness_rl s @ [fit], f := Some fit\<rparr>"
  using assms
  by (auto simp: rl_evaluate_def fitness_of_def split: if_splits option.splits)

lemma rl_body_Ok:
  assumes "rl_body C a i s = Some (Inr s')"
  obtains su where "rl_update C a i s = Some (Inr su)" and "rl_evaluate C a i su = Some (Inr s')"
  using assms by (auto simp: rl_body_def split: option.splits sum.splits)


lemma ea_loop_frame:
  assumes "for_each (ea_body C a) ps s = Some (Inr s')"
  shows "actors s' = actors s \<and> actors_t s' = actors_t s \<and> critic s' = critic s
       \<and> critic_t s' = critic_t s \<and> rl_params s' = rl_params s \<and> fitness_rl s' = fitness_rl s
       \<and> ea_params s' = ea_params s \<and> total_steps s' = total_steps s \<and> step_cpt s' = step_cpt s
       \<and> df s' = df s \<and> log_pkl s' = log_pkl s \<and> es s' = es s \<and> max_action s' = max_action s
       \<and> actor_steps s \<le> actor_steps s'"
proof (rule for_each_invariant [OF assms])
  fix x t t'
  assume inv: "actors t = actors s \<and> actors_t t = actors_t s \<and> critic t = critic s
       \<and> critic_t t = critic_t s \<and> rl_params t = rl_params s \<and> fitness_rl t = fitness_rl s
       \<and> ea_params t = ea_params s \<and> total_steps t = total_steps s \<and> step_cpt t = step_cpt s
       \<and> df t = df s \<and> log_pkl t = log_pkl s \<and> es t = es s \<and> max_action t = max_action s
       \<and> actor_steps s \<le> actor_steps t"
    and b: "ea_body C a x t = Some (Inr t')"
  obtain fit steps where
    t': "t' = t\<lparr>world := world t', memory := memory t',
            actor_ea := actor_set_params C x (actor_ea t),
            actor_steps := actor_steps t + int steps,
            fitness_ea := fitness_ea t @ [fit], f := Some fit\<rparr>"
    using b by (rule ea_body_Ok)
  show "actors t' = actors s \<and> actors_t t' = actors_t s \<and> critic t' = critic s
       \<and> critic_t t' = critic_t s \<and> rl_params t' = rl_params s \<and> fitness_rl t' = fitness_rl s
       \<and> ea_params t' = ea_params s \<and> total_steps t' = total_steps s \<and> step_cpt t' = step_cpt s
       \<and> df t' = df s \<and> log_pkl t' = log_pkl s \<and> es t' = es s \<and> max_action t' = max_action s
       \<and> actor_steps s \<le> actor_steps t'"
    using inv by (subst (1 2 3 4 5 6 7 8 9 10 11 12 13 14) t') simp
qed simp

lemma ea_loop_fitness:
  assumes "for_each (ea_body C a) ps s = Some (Inr s')"
  shows "\<exists>fs. fitness_ea s' = fitness_ea s @ fs \<and> length fs = length ps
           \<and> (\<forall>i<length ps. \<exists>si. for_each (ea_body C a) (take i ps) s = Some (Inr si)
                  \<and> fitness_of C a si (actor_set_params C (ps ! i) (actor_ea si)) (fs ! i))"
  using assms
proof (induction ps arbitrary: s' rule: rev_induct)
  case Nil
  then show ?case by simp
next
  case (snoc p ps)
  obtain sm where sm: "for_each (ea_body C a) ps s = Some (Inr sm)"
    and b: "ea_body C a p sm = Some (Inr s')"
    using snoc.prems by (rule for_each_snoc_Ok)
  obtain fs where fs: "fitness_ea sm = fitness_ea s @ fs" "length fs = length ps"
    and each: "\<And>i. i < length ps \<Longrightarrow> \<exists>si. for_each (ea_body C a) (take i ps) s = Some (Inr si)
                  \<and> fitness_of C a si (actor_set_params C (ps ! i) (actor_ea si)) (fs ! i)"
    using snoc.IH [OF sm] by blast
  obtain fit steps where fit: "fitness_of C a sm (actor_set_params C p (actor_ea sm)) fit"
    and s': "s' = sm\<lparr>world := world s', memory := memory s',
            actor_ea := actor_set_params C p (actor_ea sm),
            actor_steps := actor_steps sm + int steps,
            fitness_ea := fitness_ea sm @ [fit], f := Some fit\<rparr>"
    using b by (rule ea_body_Ok)
  have f': "fitness_ea s' = fitness_ea s @ (fs @ [fit])"
    using fs(1) by (subst s') simp
  have "\<exists>si. for_each (ea_body C a) (take i (ps @ [p])) s = Some (Inr si)
          \<and> fitness_of C a si (actor_set_params C ((ps @ [p]) ! i) (actor_ea si)) ((fs @ [fit]) ! i)"
    if i: "i < length (ps @ [p])" for i
  proof (cases "i < length ps")
    case True
    then show ?thesis
      using each [OF True] fs(2) by (simp add: nth_append)
  next
    case False
    then have "i = length ps"
      using i by simp
    then show ?thesis
      using sm fit fs(2) by (simp add: nth_append)
  qed
  then show ?case
    using f' fs(2) by (intro exI [of _ "fs @ [fit]"]) simp
qed


lemma rl_body_frame:
  assumes "rl_body C a i s = Some (Inr s')"
  shows "fitness_ea s' = fitness_ea s \<and> ea_params s' = ea_params s
       \<and> total_steps s' = total_steps s \<and> step_cpt s' = step_cpt s \<and> df s' = df s
       \<and> log_pkl s' = log_pkl s \<and> es s' = es s \<and> max_action s' = max_action s
       \<and> length (actors s') = length (actors s)
       \<and> (\<forall>j. j \<noteq> i \<longrightarrow> actors s' ! j = actors s ! j)"
proof -
  obtain su where u: "rl_update C a i s = Some (Inr su)"
    and e: "rl_evaluate C a i su = Some (Inr s')"
    using assms by (rule rl_body_Ok)
  obtain actor where
    su: "su = s\<lparr>world := world su, critic := critic su, critic_t := critic_t su,
            actors := (actors s)[i := actor], actors_t := actors_t su\<rparr>"
    using u by (rule rl_update_Ok)
  obtain fit steps where
    s': "s' = su\<lparr>world := world s', memory := memory s',
            actor_steps := actor_steps su + int steps,
            rl_params := rl_params su @ [actor_get_params C (actors su ! i)],
            fitness_rl := fitness_rl su @ [fit], f := Some fit\<rparr>"
    using e by (rule rl_evaluate_Ok)
  have "fitness_ea su = fitness_ea s \<and> ea_params su = ea_params s
       \<and> total_steps su = total_steps s \<and> step_cpt su = step_cpt s \<and> df su = df s
       \<and> log_pkl su = log_pkl s \<and> es su = es s \<and> max_action su = max_action s
       \<and> length (actors su) = length (actors s)
       \<and> (\<forall>j. j \<noteq> i \<longrightarrow> actors su ! j = actors s ! j)"
    by (subst (1 2 3 4 5 6 7 8 9 10) su) simp
  then show ?thesis
    by (subst (1 2 3 4 5 6 7 8 9 10) s') simp
qed

lemma rl_loop_frame:
  assumes "for_each (rl_body C a) xs s = Some (Inr s')"
  shows "fitness_ea s' = fitness_ea s \<and> ea_params s' = ea_params s
       \<and> total_steps s' = total_steps s \<and> step_cpt s' = step_cpt s \<and> df s' = df s
       \<and> log_pkl s' = log_pkl s \<and> es s' = es s \<and> max_action s' = max_action s
       \<and> length (actors s') = length (actors s)
       \<and> (\<forall>j. j \<notin> set xs \<longrightarrow> actors s' ! j = actors s ! j)"
proof (rule for_each_invariant [OF assms])
  fix x t t'
  assume x: "x \<in> set xs"
    and inv: "fitness_ea t = fitness_ea s \<and> ea_params t = ea_params s
       \<and> total_steps t = total_steps s \<and> step_cpt t = step_cpt s \<and> df t = df s
       \<and> log_pkl t = log_pkl s \<and> es t = es s \<and> max_action t = max_action s
       \<and> length (actors t) = length (actors s)
       \<and> (\<forall>j. j \<notin> set xs \<longrightarrow> actors t ! j = actors s ! j)"
    and b: "rl_body C a x t = Some (Inr t')"
  show "fitness_ea t' = fitness_ea s \<and> ea_params t' = ea_params s
       \<and> total_steps t' = total_steps s \<and> step_cpt t' = step_cpt s \<and> df t' = df s
       \<and> log_pkl t' = log_pkl s \<and> es t' = es s \<and> max_action t' = max_action s
       \<and> length (actors t') = length (actors s)
       \<and> (\<forall>j. j \<notin> set xs \<longrightarrow> actors t' ! j = actors s ! j)"
    using rl_body_frame [OF b] inv x by auto
qed simp

lemma rl_loop_fitness:
  assumes "for_each (rl_body C a) [0 ..< n] s = Some (Inr s')"
  shows "\<exists>fs ps. fitness_rl s' = fitness_rl s @ fs \<and> rl_params s' = rl_params s @ ps
           \<and> length fs = n \<and> length ps = n
           \<and> (\<forall>j<n. \<exists>si sj. for_each (rl_body C a) [0 ..< j] s = Some (Inr si)
                  \<and> rl_update C a j si = Some (Inr sj)
                  \<and> ps ! j = actor_get_params C (actors sj ! j)
                  \<and> fitness_of C a sj (actors sj ! j) (fs ! j))"
  using assms
proof (induction n arbitrary: s')
  case 0
  then show ?case by simp
next
  case (Suc n)
  have "for_each (rl_body C a) ([0 ..< n] @ [n]) s = Some (Inr s')"
    using Suc.prems by simp
  then obtain sm where sm: "for_each (rl_body C a) [0 ..< n] s = Some (Inr sm)"
    and b: "rl_body C a n sm = Some (Inr s')"
    by (rule for_each_snoc_Ok)
  obtain fs ps where fs: "fitness_rl sm = fitness_rl s @ fs" "rl_params sm = rl_params s @ ps"
    "length fs = n" "length ps = n"
    and each: "\<And>j. j < n \<Longrightarrow> \<exists>si sj. for_each (rl_body C a) [0 ..< j] s = Some (Inr si)
                  \<and> rl_update C a j si = Some (Inr sj)
                  \<and> ps ! j = actor_get_params C (actors sj ! j)
                  \<and> fitness_of C a sj (actors sj ! j) (fs ! j)"
    using Suc.IH [OF sm] by blast
  obtain su where u: "rl_update C a n sm = Some (Inr su)"
    and e: "rl_evaluate C a n su = Some (Inr s')"
    using b by (rule rl_body_Ok)
  obtain actor where
    su: "su = sm\<lparr>world := world su, critic := critic su, critic_t := critic_t su,
            actors := (actors sm)[n := actor], actors_t := actors_t su\<rparr>"
    using u by (rule rl_update_Ok)
  obtain fit steps where fit: "fitness_of C a su (actors su ! n) fit"
    and s': "s' = su\<lparr>world := world s', memory := memory s',
            actor_steps := actor_steps su + int steps,
            rl_params := rl_params su @ [actor_get_params C (actors su ! n)],
            fitness_rl := fitness_rl su @ [fit], f := Some fit\<rparr>"
    using e by (rule rl_evaluate_Ok)
  have su_lists: "fitness_rl su = fitness_rl sm \<and> rl_params su = rl_params sm"
    by (subst (1 2) su) simp
  have f': "fitness_rl s' = fitness_rl s @ (fs @ [fit])"
    "rl_params s' = rl_params s @ (ps @ [actor_get_params C (actors su ! n)])"
    using fs(1,2) su_lists by (subst s', simp)+
  let ?fs = "fs @ [fit]" and ?ps = "ps @ [actor_get_params C (actors su ! n)]"
  have "\<exists>si sj. for_each (rl_body C a) [0 ..< j] s = Some (Inr si)
                  \<and> rl_update C a j si = Some (Inr sj)
                  \<and> ?ps ! j = actor_get_params C (actors sj ! j)
                  \<and> fitness_of C a sj (actors sj ! j) (?fs ! j)"
    if j: "j < Suc n" for j
  proof (cases "j < n")
    case True
    then show ?thesis
      using each [OF True] fs(3,4) by (simp add: nth_append)
  next
    case False
    then have "j = n"
      using j by simp
    then show ?thesis
      using sm u fit fs(3,4) by (auto simp: nth_append)
  qed
  then show ?case
    using f' fs(3,4) by (intro exI [of _ ?fs] exI [of _ ?ps]) simp
qed

lemma save_stuff_frame:
  assumes "save_stuff C a s = Some (Inr s')"
  shows "params s' = params s \<and> fitness s' = fitness s \<and> ea_params s' = ea_params s
       \<and> rl_params s' = rl_params s \<and> fitness_ea s' = fitness_ea s
       \<and> fitness_rl s' = fitness_rl s \<and> total_steps s' = total_steps s
       \<and> actors s' = actors s \<and> actors_t s' = actors_t s \<and> critic s' = critic s
       \<and> critic_t s' = critic_t s \<and> es s' = es s \<and> max_action s' = max_action s"
  using assms
  by (auto simp: save_stuff_def Let_def split: if_splits sum.splits)

lemma generation_Ok:
  assumes "generation C a s = Some (Inr s')"
  obtains s2 s3 es' where
    "rl_phase C a (gen_ask C a s) = Some (Inr s2)"
    "for_each (ea_body C a) (ea_params s2) (s2\<lparr>actor_steps := 0\<rparr>) = Some (Inr s3)"
    "es_tell C (params (combine (update_step_counts s3)))
       (fitness (combine (update_step_counts s3))) (es s3) = Inr es'"
    "save_stuff C a ((combine (update_step_counts s3))\<lparr>es := es'\<rparr>) = Some (Inr s')"
  using assms
  by (auto simp: generation_def Let_def combine_def update_step_counts_def
      split: option.splits sum.splits)

lemma gen_ask_frame:
  "world (gen_ask C a s) = world s \<and> memory (gen_ask C a s) = memory s
   \<and> actors (gen_ask C a s) = actors s \<and> actors_t (gen_ask C a s) = actors_t s
   \<and> critic (gen_ask C a s) = critic s \<and> critic_t (gen_ask C a s) = critic_t s
   \<and> total_steps (gen_ask C a s) = total_steps s
   \<and> fitness_rl (gen_ask C a s) = [] \<and> fitness_ea (gen_ask C a s) = []
   \<and> rl_params (gen_ask C a s) = []"
  by (simp add: gen_ask_def)

lemma rl_phase_warmup:
  "\<not> start_steps a < total_steps s \<Longrightarrow> rl_phase C a s = Some (Inr s)"
  by (simp add: rl_phase_def)

lemma rl_phase_active:
  assumes "rl_phase C a s = Some (Inr s')" and "start_steps a < total_steps s"
  shows "for_each (rl_body C a) [0 ..< nat (n_grad a)] s = Some (Inr s')"
  using assms by (auto simp: rl_phase_def split: option.splits sum.splits if_splits)

lemma rl_phase_frame:
  assumes "rl_phase C a s = Some (Inr s')"
  shows "fitness_ea s' = fitness_ea s \<and> ea_params s' = ea_params s
       \<and> total_steps s' = total_steps s"
proof (cases "start_steps a < total_steps s")
  case True
  show ?thesis
    using rl_loop_frame [OF rl_phase_active [OF assms True]] by simp
next
  case False
  then show ?thesis
    using assms by (simp add: rl_phase_warmup)
qed

lemma rl_phase_fitness:
  assumes "rl_phase C a s = Some (Inr s')"
  shows "\<exists>fs ps. fitness_rl s' = fitness_rl s @ fs \<and> rl_params s' = rl_params s @ ps
           \<and> length fs = length ps
           \<and> (\<forall>j<length ps. \<exists>si sj. for_each (rl_body C a) [0 ..< j] s = Some (Inr si)
                  \<and> rl_update C a j si = Some (Inr sj)
                  \<and> ps ! j = actor_get_params C (actors sj ! j)
                  \<and> fitness_of C a sj (actors sj ! j) (fs ! j))"
proof (cases "start_steps a < total_steps s")
  case True
  obtain fs ps where "fitness_rl s' = fitness_rl s @ fs" "rl_params s' = rl_params s @ ps"
    "length fs = nat (n_grad a)" "length ps = nat (n_grad a)"
    "\<forall>j<nat (n_grad a). \<exists>si sj. for_each (rl_body C a) [0 ..< j] s = Some (Inr si)
                  \<and> rl_update C a j si = Some (Inr sj)
                  \<and> ps ! j = actor_get_params C (actors sj ! j)
                  \<and> fitness_of C a sj (actors sj ! j) (fs ! j)"
    using rl_loop_fitness [OF rl_phase_active [OF assms True]] by blast
  then show ?thesis
    by (intro exI [of _ fs] exI [of _ ps]) simp
next
  case False
  then have "s' = s"
    using assms by (simp add: rl_phase_warmup)
  then show ?thesis
    by (intro exI [of _ "[]"]) simp
qed

subsection \<open>The small run\<close>

lemma toy_generation_1: "generation toy_C toy_args toy_init = Some (Inr toy_gen1)"
  by code_simp

lemma toy_generation_2: "generation toy_C toy_args toy_gen1 = Some (Inr toy_gen2)"
  by code_simp

lemma toy_generation_3: "generation toy_C toy_args toy_gen2 = Some (Inr toy_gen3)"
  by code_simp

lemma toy_main_loop: "main_loop toy_C toy_args toy_init = Some (Inr toy_gen3)"
  by code_simp

lemma toy_long_period:
  "map_option (map_sum id (\<lambda>s. (total_steps s, step_cpt s, snd (world s))))
     (generation toy_C (toy_args\<lparr>period := 100\<rparr>) toy_gen2) = Some (Inr (6, 6, 8))"
  by code_simp

lemma toy_reach: "loop_reach toy_C toy_args toy_init toy_gen2"
proof -
  have 1: "total_steps toy_init < max_steps toy_args"
    by (simp add: toy_init_def toy_args_def)
  have 2: "total_steps toy_gen1 < max_steps toy_args"
    by (simp add: toy_gen1_def toy_args_def)
  show ?thesis
    using loop_reach_next [OF loop_reach_next [OF loop_reach_start 1 toy_generation_1] 2
        toy_generation_2] .
qed

subsection \<open>The arguments of \<open>tell\<close>\<close>

text \<open>
  Claim C1. In every generation that reaches \<open>es.tell\<close>, the parameter list and the
  fitness list passed to it have the same length; the candidates of the engine come
  first, in the order of \<open>ask\<close>, then the gradient actors, in their order; the fitness
  at index \<open>i\<close> is the one that \<open>evaluate\<close> returned for the actor that carries the
  parameters at index \<open>i\<close>: for a candidate, \<open>actor_ea\<close> after \<open>set_params\<close>, evaluated
  in the state that the evaluations of the candidates before it have left; for a
  gradient actor, the actor just updated, whose \<open>get_params\<close> is the vector recorded.
\<close>

theorem tell_arguments_paired:
  assumes "generation C a s = Some (Inr s')"
  shows "length (params s') = length (fitness s')
       \<and> params s' = ea_params s' @ rl_params s'
       \<and> fitness s' = fitness_ea s' @ fitness_rl s'
       \<and> length (ea_params s') = length (fitness_ea s')
       \<and> (\<exists>es0. es_tell C (params s') (fitness s') es0 = Inr (es s'))
       \<and> (\<exists>s2. rl_phase C a (gen_ask C a s) = Some (Inr s2)
             \<and> (\<forall>i<length (ea_params s').
                   \<exists>si. for_each (ea_body C a) (take i (ea_params s')) (s2\<lparr>actor_steps := 0\<rparr>)
                          = Some (Inr si)
                      \<and> fitness_of C a si (actor_set_params C (params s' ! i) (actor_ea si))
                           (fitness s' ! i)))
       \<and> (\<forall>j<length (rl_params s').
             \<exists>si sj. for_each (rl_body C a) [0 ..< j] (gen_ask C a s) = Some (Inr si)
                \<and> rl_update C a j si = Some (Inr sj)
                \<and> params s' ! (length (ea_params s') + j) = actor_get_params C (actors sj ! j)
                \<and> fitness_of C a sj (actors sj ! j) (fitness s' ! (length (ea_params s') + j)))"
proof -
  obtain s2 s3 es' where
    rl: "rl_phase C a (gen_ask C a s) = Some (Inr s2)"
    and ea: "for_each (ea_body C a) (ea_params s2) (s2\<lparr>actor_steps := 0\<rparr>) = Some (Inr s3)"
    and tell: "es_tell C (params (combine (update_step_counts s3)))
       (fitness (combine (update_step_counts s3))) (es s3) = Inr es'"
    and save: "save_stuff C a ((combine (update_step_counts s3))\<lparr>es := es'\<rparr>) = Some (Inr s')"
    using assms by (rule generation_Ok)
  let ?s4 = "combine (update_step_counts s3)"
  have s4: "params ?s4 = ea_params s3 @ rl_params s3" "fitness ?s4 = fitness_ea s3 @ fitness_rl s3"
    "ea_params ?s4 = ea_params s3" "rl_params ?s4 = rl_params s3"
    "fitness_ea ?s4 = fitness_ea s3" "fitness_rl ?s4 = fitness_rl s3"
    by (simp_all add: combine_def update_step_counts_def)
  have s': "params s' = params ?s4" "fitness s' = fitness ?s4" "ea_params s' = ea_params ?s4"
    "rl_params s' = rl_params ?s4" "fitness_ea s' = fitness_ea ?s4"
    "fitness_rl s' = fitness_rl ?s4" "es s' = es'"
    using save_stuff_frame [OF save] by simp_all
  have s3: "rl_params s3 = rl_params s2" "fitness_rl s3 = fitness_rl s2"
    "ea_params s3 = ea_params s2"
    using ea_loop_frame [OF ea] by simp_all
  have s2: "fitness_ea s2 = []"
    using rl_phase_frame [OF rl] gen_ask_frame [of C a s] by simp
  obtain fs_ea where fs_ea: "fitness_ea s3 = fs_ea" "length fs_ea = length (ea_params s2)"
    and each_ea: "\<And>i. i < length (ea_params s2) \<Longrightarrow>
        \<exists>si. for_each (ea_body C a) (take i (ea_params s2)) (s2\<lparr>actor_steps := 0\<rparr>) = Some (Inr si)
           \<and> fitness_of C a si (actor_set_params C (ea_params s2 ! i) (actor_ea si)) (fs_ea ! i)"
    using ea_loop_fitness [OF ea] s2 by auto
  obtain fs_rl ps_rl where rls: "fitness_rl s2 = fs_rl" "rl_params s2 = ps_rl"
    "length fs_rl = length ps_rl"
    and each_rl: "\<And>j. j < length ps_rl \<Longrightarrow>
        \<exists>si sj. for_each (rl_body C a) [0 ..< j] (gen_ask C a s) = Some (Inr si)
           \<and> rl_update C a j si = Some (Inr sj)
           \<and> ps_rl ! j = actor_get_params C (actors sj ! j)
           \<and> fitness_of C a sj (actors sj ! j) (fs_rl ! j)"
    using rl_phase_fitness [OF rl] gen_ask_frame [of C a s] by auto
  have P: "params s' = ea_params s2 @ ps_rl" and F: "fitness s' = fs_ea @ fs_rl"
    and E: "ea_params s' = ea_params s2" and R: "rl_params s' = ps_rl"
    and FE: "fitness_ea s' = fs_ea" and FR: "fitness_rl s' = fs_rl"
    using s' s4 s3 fs_ea(1) rls(1,2) by simp_all
  have c1: "length (params s') = length (fitness s')"
    using P F fs_ea(2) rls(3) by simp
  have c2: "params s' = ea_params s' @ rl_params s'"
    using P E R by simp
  have c3: "fitness s' = fitness_ea s' @ fitness_rl s'"
    using F FE FR by simp
  have c4: "length (ea_params s') = length (fitness_ea s')"
    using E FE fs_ea(2) by simp
  have c5: "\<exists>es0. es_tell C (params s') (fitness s') es0 = Inr (es s')"
    using tell s' by auto
  have c6: "\<forall>i<length (ea_params s').
              \<exists>si. for_each (ea_body C a) (take i (ea_params s')) (s2\<lparr>actor_steps := 0\<rparr>)
                     = Some (Inr si)
                 \<and> fitness_of C a si (actor_set_params C (params s' ! i) (actor_ea si))
                      (fitness s' ! i)"
    using each_ea fs_ea(2) by (simp add: P F E nth_append)
  have c7: "\<forall>j<length (rl_params s').
             \<exists>si sj. for_each (rl_body C a) [0 ..< j] (gen_ask C a s) = Some (Inr si)
                \<and> rl_update C a j si = Some (Inr sj)
                \<and> params s' ! (length (ea_params s') + j) = actor_get_params C (actors sj ! j)
                \<and> fitness_of C a sj (actors sj ! j) (fitness s' ! (length (ea_params s') + j))"
    using each_rl fs_ea(2) by (simp add: P F E R nth_append)
  show ?thesis
    using c1 c2 c3 c4 c5 c6 c7 rl by blast
qed


theorem tell_arguments_paired_witness:
  "generation toy_C toy_args toy_gen2 = Some (Inr toy_gen3)
   \<and> params toy_gen3 = [[0], [1]] \<and> fitness toy_gen3 = [Num 2, Num 4]
   \<and> length (params toy_gen3) = length (fitness toy_gen3)
   \<and> params toy_gen3 = ea_params toy_gen3 @ rl_params toy_gen3
   \<and> (\<exists>es0. es_tell toy_C (params toy_gen3) (fitness toy_gen3) es0 = Inr (es toy_gen3))
   \<and> (\<exists>si sj. for_each (rl_body toy_C toy_args) [0 ..< 0] (gen_ask toy_C toy_args toy_gen2)
                 = Some (Inr si)
          \<and> rl_update toy_C toy_args 0 si = Some (Inr sj)
          \<and> params toy_gen3 ! 1 = actor_get_params toy_C (actors sj ! 0)
          \<and> fitness_of toy_C toy_args sj (actors sj ! 0) (fitness toy_gen3 ! 1))"
proof -
  note t = tell_arguments_paired [OF toy_generation_3]
  have r: "rl_params toy_gen3 = [[1]]" and e: "ea_params toy_gen3 = [[0]]"
    and p: "params toy_gen3 = [[0], [1]]" and f: "fitness toy_gen3 = [Num 2, Num 4]"
    by (simp_all add: toy_gen3_def)
  have c: "length (params toy_gen3) = length (fitness toy_gen3)"
    "params toy_gen3 = ea_params toy_gen3 @ rl_params toy_gen3"
    "\<exists>es0. es_tell toy_C (params toy_gen3) (fitness toy_gen3) es0 = Inr (es toy_gen3)"
    using t by blast+
  have "\<forall>j<length (rl_params toy_gen3).
          \<exists>si sj. for_each (rl_body toy_C toy_args) [0 ..< j] (gen_ask toy_C toy_args toy_gen2)
                 = Some (Inr si)
          \<and> rl_update toy_C toy_args j si = Some (Inr sj)
          \<and> params toy_gen3 ! (length (ea_params toy_gen3) + j)
               = actor_get_params toy_C (actors sj ! j)
          \<and> fitness_of toy_C toy_args sj (actors sj ! j)
               (fitness toy_gen3 ! (length (ea_params toy_gen3) + j))"
    using t by blast
  then have "\<exists>si sj. for_each (rl_body toy_C toy_args) [0 ..< 0] (gen_ask toy_C toy_args toy_gen2)
                 = Some (Inr si)
          \<and> rl_update toy_C toy_args 0 si = Some (Inr sj)
          \<and> params toy_gen3 ! (length (ea_params toy_gen3) + 0)
               = actor_get_params toy_C (actors sj ! 0)
          \<and> fitness_of toy_C toy_args sj (actors sj ! 0)
               (fitness toy_gen3 ! (length (ea_params toy_gen3) + 0))"
    by (rule allE [of _ 0]) (simp add: r)
  then have "\<exists>si sj. for_each (rl_body toy_C toy_args) [0 ..< 0] (gen_ask toy_C toy_args toy_gen2)
                 = Some (Inr si)
          \<and> rl_update toy_C toy_args 0 si = Some (Inr sj)
          \<and> params toy_gen3 ! 1 = actor_get_params toy_C (actors sj ! 0)
          \<and> fitness_of toy_C toy_args sj (actors sj ! 0) (fitness toy_gen3 ! 1)"
    by (simp add: e)
  then show ?thesis
    using c toy_generation_3 p f by blast
qed

subsection \<open>Warm-up and the gradient updates\<close>





















subsection \<open>The step counters\<close>

text \<open>
  Claim C2 asks that \<open>total_steps\<close> and \<open>step_cpt\<close> grow by the steps of all rollouts of
  the generation, those of the gradient actors included. The script adds the steps of
  the gradient actors to \<open>actor_steps\<close> (line 327) and then sets \<open>actor_steps = 0\<close>
  (line 335) before the candidates are evaluated. In the third generation of the small
  run, reached from the initial state, the environment takes 4 steps, 2 for the
  gradient actor and 2 for the candidate, and \<open>total_steps\<close> grows by 2; with a period
  too long for a checkpoint, \<open>step_cpt\<close> grows by 2 as well.
\<close>

theorem total_steps_omits_rl_rollouts:
  "loop_reach toy_C toy_args toy_init toy_gen2
   \<and> start_steps toy_args < total_steps toy_gen2
   \<and> generation toy_C toy_args toy_gen2 = Some (Inr toy_gen3)
   \<and> length (fitness_rl toy_gen3) = 1 \<and> length (fitness_ea toy_gen3) = 1
   \<and> snd (world toy_gen3) = snd (world toy_gen2) + 4
   \<and> total_steps toy_gen3 = total_steps toy_gen2 + 2
   \<and> map_option (map_sum id (\<lambda>s. (total_steps s, step_cpt s, snd (world s))))
        (generation toy_C (toy_args\<lparr>period := 100\<rparr>) toy_gen2)
      = Some (Inr (total_steps toy_gen2 + 2, step_cpt toy_gen2 + 2, snd (world toy_gen2) + 4))"
  using toy_reach toy_generation_3 toy_long_period
  by (simp add: toy_gen2_def toy_gen3_def toy_args_def)

subsection \<open>The run log\<close>

text \<open>
  Claim C6 asks that at a checkpoint the log, with the row of this checkpoint, is
  written to the snapshot. The script calls \<open>df.to_pickle\<close> (line 360) before it
  appends the row (line 376). In the third generation of the small run \<open>step_cpt\<close>
  reaches the period, the row is appended and the counter reset, and \<open>log.pkl\<close> holds
  the log without the row.
\<close>

theorem log_snapshot_lags:
  "step_cpt toy_gen2 + 2 = period toy_args
   \<and> generation toy_C toy_args toy_gen2 = Some (Inr toy_gen3)
   \<and> df toy_gen3 = df toy_gen2 @
        [\<lparr>res_total_steps = 6, average_score_ea = Num 2, average_score_rl = Num 4,
          average_score = Num 3, best_score = Num 4\<rparr>]
   \<and> log_pkl toy_gen3 = Some (df toy_gen2)
   \<and> log_pkl toy_gen3 \<noteq> Some (df toy_gen3)
   \<and> step_cpt toy_gen3 = 0"
  using toy_generation_3 by (simp add: toy_gen2_def toy_gen3_def toy_args_def)

subsection \<open>Antithetic sampling\<close>

text \<open>
  Claim C10. The script asks for antithetic sampling exactly when the population size
  is even, whatever integer the command line gives, so the constructor's precondition
  holds for the arguments it receives; the only exception the argument list can raise
  is the \<open>IndexError\<close> of \<open>actors[0]\<close> on an empty list of gradient actors.
\<close>

theorem antithetic_iff_even:
  "antithetic_arg a = even (pop_size a)
   \<and> sepCEM_precondition (pop_size a) (antithetic_arg a) = Inr ()
   \<and> (case sepCEM_args C a acts of
         Inl e \<Rightarrow> e = IndexError \<and> acts = []
       | Inr (sz, pop, anti, par) \<Rightarrow>
           pop = pop_size a \<and> anti = even pop \<and> sepCEM_precondition pop anti = Inr ())"
proof -
  have ev: "antithetic_arg a = even (pop_size a)"
    by (simp add: antithetic_arg_def py_not_def even_iff_mod_2_eq_zero)
  then have pre: "sepCEM_precondition (pop_size a) (antithetic_arg a) = Inr ()"
    by (simp add: sepCEM_precondition_def)
  show ?thesis
    using ev pre by (cases acts) (simp_all add: sepCEM_args_def)
qed

lemma sepCEM_args_n_grad:
  assumes "sepCEM_args C a acts = Inr x" and "length acts = nat (n_grad a)"
  shows "1 \<le> n_grad a"
  using assms by (cases acts) (auto simp: sepCEM_args_def)

end
